theory Spec2Isabelle
  imports Complex_Main "HOL-Library.Word"
begin

section \<open>Qt and VTK values used by the part tree\<close>

text \<open>
  Objects allocated with \<^verbatim>\<open>new\<close> (tree nodes, VTK actors) are identified by their
  address.  An allocation takes the fresh address as an explicit argument.
\<close>

type_synonym addr = nat

type_synonym QString = string

text \<open>The only variants the program stores are strings; a default-constructed
  \<^verbatim>\<open>QVariant()\<close> is invalid and converts to the empty string.\<close>

datatype QVariant = QVariant_invalid | QVariant QString

fun toString :: "QVariant \<Rightarrow> QString" where
  "toString QVariant_invalid = []"
| "toString (QVariant s) = s"

text \<open>\<^verbatim>\<open>QColor\<close>: default-constructed (invalid, every component reads 0) or built from
  three bytes.\<close>

datatype QColor = QColor_invalid | QColor "8 word" "8 word" "8 word"

fun red :: "QColor \<Rightarrow> int" where
  "red QColor_invalid = 0"
| "red (QColor R G B) = uint R"

fun green :: "QColor \<Rightarrow> int" where
  "green QColor_invalid = 0"
| "green (QColor R G B) = uint G"

fun blue :: "QColor \<Rightarrow> int" where
  "blue QColor_invalid = 0"
| "blue (QColor R G B) = uint B"

text \<open>\<^verbatim>\<open>QString::number(int)\<close>, decimal.\<close>

fun digits :: "nat \<Rightarrow> string" where
  "digits n = (if n < 10 then [''0123456789'' ! n]
               else digits (n div 10) @ [''0123456789'' ! (n mod 10)])"

definition QString_number :: "int \<Rightarrow> QString" where
  "QString_number i = (if i < 0 then CHR ''-'' # digits (nat (- i)) else digits (nat i))"

text \<open>\<^verbatim>\<open>QList::indexOf\<close>: the first position of the value, or -1.\<close>

fun indexOf :: "'a list \<Rightarrow> 'a \<Rightarrow> int" where
  "indexOf [] x = - 1"
| "indexOf (y # ys) x =
     (if y = x then 0 else (let i = indexOf ys x in if i < 0 then - 1 else i + 1))"

text \<open>The decoded mesh of an STL file is opaque to the tree.\<close>

type_synonym vtkPolyData = "nat list"

text \<open>A \<^verbatim>\<open>vtkSTLReader\<close> after \<^verbatim>\<open>Update()\<close>: the file it was pointed at and its output,
  \<open>None\<close> when the file could not be read or parsed (VTK reports the error and
  leaves the output empty; \<^verbatim>\<open>Update()\<close> does not throw).\<close>

record vtkSTLReader =
  FileName :: QString
  Output :: "vtkPolyData option"

text \<open>A \<^verbatim>\<open>vtkActor\<close>: its identity, the reader its mapper is connected to, the prop's
  visibility flag and the diffuse colour of its property.\<close>

record vtkActor =
  actor_addr :: addr
  InputConnection :: vtkSTLReader
  Visibility :: bool
  DiffuseColor :: "real \<times> real \<times> real"

section \<open>ModelPart\<close>

text \<open>
  The members of \<^verbatim>\<open>class ModelPart\<close> (ModelPart.h).  The child list owns its items
  (the destructor deletes them), so a part is a tree value: \<open>m_childItems\<close> holds the
  child parts themselves, each with its own address \<open>self\<close>.  The parent pointer
  \<open>m_parentItem\<close> does not own: it is stored as an address.  The member
  \<^verbatim>\<open>mapper\<close> is never read or written and is left out.
\<close>

record ModelPart_members =
  m_itemData :: "QVariant list"
  m_parentItem :: "addr option"
  isVisible :: bool
  color :: QColor
  reader :: "vtkSTLReader option"
  actor :: "vtkActor option"

datatype ModelPart =
  ModelPart (self: addr) (members: ModelPart_members) (m_childItems: "ModelPart list")

text \<open>\<^verbatim>\<open>ModelPart::ModelPart(data, parent)\<close>: visibility starts false, the colour and the
  smart pointers are default-constructed.\<close>

definition ModelPart_new :: "addr \<Rightarrow> QVariant list \<Rightarrow> addr option \<Rightarrow> ModelPart" where
  "ModelPart_new a d p =
     ModelPart a
       \<lparr>m_itemData = d, m_parentItem = p, isVisible = False,
        color = QColor_invalid, reader = None, actor = None\<rparr> []"

text \<open>\<^verbatim>\<open>item->m_parentItem = this; m_childItems.append(item);\<close>\<close>

definition appendChild :: "ModelPart \<Rightarrow> ModelPart \<Rightarrow> ModelPart" where
  "appendChild this item =
     ModelPart (self this) (members this)
       (m_childItems this @
          [ModelPart (self item) ((members item)\<lparr>m_parentItem := Some (self this)\<rparr>)
             (m_childItems item)])"

definition child :: "ModelPart \<Rightarrow> int \<Rightarrow> ModelPart option" where
  "child this r =
     (if r < 0 \<or> r \<ge> int (length (m_childItems this)) then None
      else Some (m_childItems this ! nat r))"

definition childCount :: "ModelPart \<Rightarrow> int" where
  "childCount this = int (length (m_childItems this))"

definition columnCount :: "ModelPart \<Rightarrow> int" where
  "columnCount this = int (length (m_itemData (members this)))"

definition data :: "ModelPart \<Rightarrow> int \<Rightarrow> QVariant" where
  "data this column =
     (if column < 0 \<or> column \<ge> int (length (m_itemData (members this))) then QVariant_invalid
      else m_itemData (members this) ! nat column)"

definition ModelPart_set :: "ModelPart \<Rightarrow> int \<Rightarrow> QVariant \<Rightarrow> ModelPart" where
  "ModelPart_set this column v =
     (if column \<ge> 0 \<and> column < int (length (m_itemData (members this)))
      then ModelPart (self this)
             ((members this)\<lparr>m_itemData := (m_itemData (members this))[nat column := v]\<rparr>)
             (m_childItems this)
      else this)"

definition parentItem :: "ModelPart \<Rightarrow> addr option" where
  "parentItem this = m_parentItem (members this)"

text \<open>
  Pointers into a tree.  \<open>nodes\<close> lists a tree's parts in pre-order; \<open>deref tree p\<close> is
  the part at address \<open>p\<close>, \<open>None\<close> when no part of the tree has that address (in C++
  the pointer is then null or dangling; the model treats both as null).
  \<open>modify p f tree\<close> is the tree after a member function \<open>f\<close> ran on the part at \<open>p\<close>.
\<close>

fun nodes :: "ModelPart \<Rightarrow> ModelPart list" where
  "nodes (ModelPart a m cs) = ModelPart a m cs # concat (map nodes cs)"

definition addrs :: "ModelPart \<Rightarrow> addr list" where
  "addrs t = map self (nodes t)"

definition deref :: "ModelPart \<Rightarrow> addr \<Rightarrow> ModelPart option" where
  "deref tree p = find (\<lambda>n. self n = p) (nodes tree)"

fun modify :: "addr \<Rightarrow> (ModelPart \<Rightarrow> ModelPart) \<Rightarrow> ModelPart \<Rightarrow> ModelPart" where
  "modify p f (ModelPart a m cs) =
     (if p = a then f (ModelPart a m cs) else ModelPart a m (map (modify p f) cs))"

text \<open>\<^verbatim>\<open>ModelPart::row()\<close>: the position of this part in its parent's child list
  (\<^verbatim>\<open>indexOf\<close> compares pointers), 0 without a parent.\<close>

definition row :: "ModelPart \<Rightarrow> ModelPart \<Rightarrow> int" where
  "row tree this =
     (case m_parentItem (members this) of
        None \<Rightarrow> 0
      | Some p \<Rightarrow>
          (case deref tree p of
             None \<Rightarrow> 0
           | Some parentPart \<Rightarrow> indexOf (map self (m_childItems parentPart)) (self this)))"

text \<open>\<^verbatim>\<open>delete m_childItems.takeAt(position)\<close> after the range check; the removed part
  and the parts it owns are destroyed with it.\<close>

definition removeChild :: "ModelPart \<Rightarrow> int \<Rightarrow> ModelPart" where
  "removeChild this position =
     (if position < 0 \<or> position \<ge> int (length (m_childItems this)) then this
      else ModelPart (self this) (members this)
             (take (nat position) (m_childItems this) @
              drop (Suc (nat position)) (m_childItems this)))"

definition setColour :: "ModelPart \<Rightarrow> 8 word \<Rightarrow> 8 word \<Rightarrow> 8 word \<Rightarrow> ModelPart" where
  "setColour this R G B =
     ModelPart (self this) ((members this)\<lparr>color := QColor R G B\<rparr>) (m_childItems this)"

definition getColourR :: "ModelPart \<Rightarrow> 8 word" where
  "getColourR this = word_of_int (red (color (members this)))"

definition getColourG :: "ModelPart \<Rightarrow> 8 word" where
  "getColourG this = word_of_int (green (color (members this)))"

definition getColourB :: "ModelPart \<Rightarrow> 8 word" where
  "getColourB this = word_of_int (blue (color (members this)))"

definition setVisible :: "ModelPart \<Rightarrow> bool \<Rightarrow> ModelPart" where
  "setVisible this v =
     ModelPart (self this) ((members this)\<lparr>isVisible := v\<rparr>) (m_childItems this)"

definition visible :: "ModelPart \<Rightarrow> bool" where
  "visible this = isVisible (members this)"

text \<open>
  \<^verbatim>\<open>ModelPart::loadSTL\<close>.  \<open>parse\<close> is the STL reader's decoding of a file (the render
  engine's contract), \<open>a\<close> the address of the new actor.  The reader and the mapper are
  locals of the function (\<^verbatim>\<open>vtkNew<vtkSTLReader> reader;\<close>): only the member \<open>actor\<close> is
  assigned, and it is assigned whatever the reader produced.
\<close>

definition loadSTL :: "(QString \<Rightarrow> vtkPolyData option) \<Rightarrow> addr \<Rightarrow> ModelPart \<Rightarrow> QString \<Rightarrow> ModelPart" where
  "loadSTL parse a this fileName =
     (let local_reader = \<lparr>FileName = fileName, Output = parse fileName\<rparr>;
          new_actor = \<lparr>actor_addr = a, InputConnection = local_reader, Visibility = True,
                       DiffuseColor = (1, 1, 1)\<rparr>
      in ModelPart (self this) ((members this)\<lparr>actor := Some new_actor\<rparr>) (m_childItems this))"

definition getActor :: "ModelPart \<Rightarrow> vtkActor option" where
  "getActor this = actor (members this)"

text \<open>\<^verbatim>\<open>ModelPart::getNewActor\<close>: null unless both the actor and the reader member are set;
  otherwise a new actor (address \<open>a\<close>) on a new mapper connected to the member reader's
  output, with the property of the part's actor deep-copied.\<close>

definition getNewActor :: "addr \<Rightarrow> ModelPart \<Rightarrow> vtkActor option" where
  "getNewActor a this =
     (case actor (members this) of
        None \<Rightarrow> None
      | Some old_actor \<Rightarrow>
          (case reader (members this) of
             None \<Rightarrow> None
           | Some rd \<Rightarrow>
               Some \<lparr>actor_addr = a, InputConnection = rd, Visibility = True,
                     DiffuseColor = DiffuseColor old_actor\<rparr>))"

section \<open>ModelPartList and QModelIndex\<close>

text \<open>\<^verbatim>\<open>QModelIndex\<close>: row, column, the internal pointer and whether it belongs to a model.
  A default-constructed index is invalid.\<close>

record QModelIndex =
  index_row :: int
  index_column :: int
  internalPointer :: "addr option"
  index_model :: bool

definition QModelIndex_invalid :: QModelIndex where
  "QModelIndex_invalid =
     \<lparr>index_row = - 1, index_column = - 1, internalPointer = None, index_model = False\<rparr>"

definition isValid :: "QModelIndex \<Rightarrow> bool" where
  "isValid i = (index_row i \<ge> 0 \<and> index_column i \<ge> 0 \<and> index_model i)"

definition createIndex :: "int \<Rightarrow> int \<Rightarrow> addr option \<Rightarrow> QModelIndex" where
  "createIndex r c p = \<lparr>index_row = r, index_column = c, internalPointer = p, index_model = True\<rparr>"

record ModelPartList =
  rootItem :: ModelPart

text \<open>The part a pointer points to, and a member function run through a pointer.\<close>

definition pointee :: "ModelPartList \<Rightarrow> addr option \<Rightarrow> ModelPart option" where
  "pointee L p = (case p of None \<Rightarrow> None | Some a \<Rightarrow> deref (rootItem L) a)"

definition through :: "addr option \<Rightarrow> (ModelPart \<Rightarrow> ModelPart) \<Rightarrow> ModelPartList \<Rightarrow> ModelPartList" where
  "through p f L = (case p of None \<Rightarrow> L | Some a \<Rightarrow> L\<lparr>rootItem := modify a f (rootItem L)\<rparr>)"

text \<open>The constructor: the root carries the three header labels.\<close>

definition ModelPartList_new :: "addr \<Rightarrow> ModelPartList" where
  "ModelPartList_new a =
     \<lparr>rootItem = ModelPart_new a [QVariant ''Part'', QVariant ''Visible?'', QVariant ''Colour''] None\<rparr>"

definition ModelPartList_getRootItem :: "ModelPartList \<Rightarrow> addr option" where
  "ModelPartList_getRootItem L = Some (self (rootItem L))"

definition ModelPartList_getItem :: "ModelPartList \<Rightarrow> QModelIndex \<Rightarrow> addr option" where
  "ModelPartList_getItem L i =
     (if \<not> isValid i then ModelPartList_getRootItem L else internalPointer i)"

definition ModelPartList_columnCount :: "ModelPartList \<Rightarrow> QModelIndex \<Rightarrow> int" where
  "ModelPartList_columnCount L parent = columnCount (rootItem L)"

definition ModelPartList_rowCount :: "ModelPartList \<Rightarrow> QModelIndex \<Rightarrow> int" where
  "ModelPartList_rowCount L parent =
     (if isValid parent \<and> index_column parent \<noteq> 0 then 0
      else (case pointee L (ModelPartList_getItem L parent) of
              None \<Rightarrow> 0
            | Some parentPart \<Rightarrow> childCount parentPart))"

text \<open>\<^verbatim>\<open>QAbstractItemModel::hasIndex\<close>.\<close>

definition ModelPartList_hasIndex :: "ModelPartList \<Rightarrow> int \<Rightarrow> int \<Rightarrow> QModelIndex \<Rightarrow> bool" where
  "ModelPartList_hasIndex L r c parent =
     (if r < 0 \<or> c < 0 then False
      else r < ModelPartList_rowCount L parent \<and> c < ModelPartList_columnCount L parent)"

definition ModelPartList_index :: "ModelPartList \<Rightarrow> int \<Rightarrow> int \<Rightarrow> QModelIndex \<Rightarrow> QModelIndex" where
  "ModelPartList_index L r c parent =
     (if \<not> ModelPartList_hasIndex L r c parent then QModelIndex_invalid
      else (case pointee L (ModelPartList_getItem L parent) of
              None \<Rightarrow> QModelIndex_invalid
            | Some parentPart \<Rightarrow>
                (case child parentPart r of
                   None \<Rightarrow> QModelIndex_invalid
                 | Some childItem \<Rightarrow> createIndex r c (Some (self childItem)))))"

definition ModelPartList_parent :: "ModelPartList \<Rightarrow> QModelIndex \<Rightarrow> QModelIndex" where
  "ModelPartList_parent L i =
     (if \<not> isValid i then QModelIndex_invalid
      else (case (case pointee L (ModelPartList_getItem L i) of
                    None \<Rightarrow> None
                  | Some childItem \<Rightarrow> pointee L (parentItem childItem)) of
              None \<Rightarrow> QModelIndex_invalid
            | Some parentPart \<Rightarrow>
                if Some (self parentPart) = ModelPartList_getRootItem L then QModelIndex_invalid
                else createIndex (row (rootItem L) parentPart) 0 (Some (self parentPart))))"


text \<open>\<^verbatim>\<open>ModelPartList::removeRows(position, rows, parentIndex)\<close>.  The C++ \<^verbatim>\<open>int\<close>s are
  integers here; \<^verbatim>\<open>position + rows\<close> is assumed not to overflow.\<close>

definition ModelPartList_removeRows :: "ModelPartList \<Rightarrow> int \<Rightarrow> int \<Rightarrow> QModelIndex \<Rightarrow> bool \<times> ModelPartList" where
  "ModelPartList_removeRows L position rows parentIndex =
     (case pointee L (ModelPartList_getItem L parentIndex) of
        None \<Rightarrow> (False, L)
      | Some parentPart \<Rightarrow>
          if position < 0 \<or> position + rows > childCount parentPart then (False, L)
          else (True,
                fold (\<lambda>_. through (Some (self parentPart)) (\<lambda>p. removeChild p position))
                  [0..<nat rows] L))"

section \<open>MainWindow\<close>

text \<open>The render engine's set of view props, in insertion order.  \<^verbatim>\<open>AddActor\<close> adds a
  prop the renderer does not hold yet, \<^verbatim>\<open>RemoveActor\<close> drops it,
  \<^verbatim>\<open>RemoveAllViewProps\<close> empties the set.\<close>

type_synonym vtkRenderer = "addr list"

definition AddActor :: "addr \<Rightarrow> vtkRenderer \<Rightarrow> vtkRenderer" where
  "AddActor a r = (if a \<in> set r then r else r @ [a])"

definition RemoveActor :: "addr \<Rightarrow> vtkRenderer \<Rightarrow> vtkRenderer" where
  "RemoveActor a r = removeAll a r"

definition RemoveAllViewProps :: "vtkRenderer \<Rightarrow> vtkRenderer" where
  "RemoveAllViewProps r = []"

text \<open>
  The window: the part list, the renderer, the status messages emitted so far
  (\<^verbatim>\<open>statusUpdateMessage(message, timeout)\<close>) and the message boxes shown so far (title and
  text).  The tree view's current index, the answers given in dialogs and the addresses
  of new objects are arguments of the slots.
\<close>

record MainWindow =
  partList :: ModelPartList
  renderer :: vtkRenderer
  statusbar :: "(QString \<times> int) list"
  messageBoxes :: "(QString \<times> QString) list"

definition statusUpdateMessage :: "QString \<Rightarrow> int \<Rightarrow> MainWindow \<Rightarrow> MainWindow" where
  "statusUpdateMessage msg timeout w = w\<lparr>statusbar := statusbar w @ [(msg, timeout)]\<rparr>"

definition QMessageBox :: "QString \<Rightarrow> QString \<Rightarrow> MainWindow \<Rightarrow> MainWindow" where
  "QMessageBox title txt w = w\<lparr>messageBoxes := messageBoxes w @ [(title, txt)]\<rparr>"

text \<open>\<^verbatim>\<open>MainWindow::addModelPartToTree\<close>, on the part list.\<close>

definition addModelPartToTree :: "addr \<Rightarrow> ModelPartList \<Rightarrow> ModelPartList" where
  "addModelPartToTree a L =
     (let childItem = ModelPart_new a [QVariant ''Model'', QVariant ''true'', QVariant ''255,255,255''] None
      in through (ModelPartList_getRootItem L) (\<lambda>rootPart. appendChild rootPart childItem) L)"

text \<open>\<^verbatim>\<open>MainWindow::addFloor\<close>: a new plane actor (address \<open>a\<close>) is added to the renderer.\<close>

definition addFloor :: "addr \<Rightarrow> MainWindow \<Rightarrow> MainWindow" where
  "addFloor a w = w\<lparr>renderer := AddActor a (renderer w)\<rparr>"

text \<open>The constructor: the part list with its root, the part \<^verbatim>\<open>"Model"\<close> under it, and a
  renderer holding the floor.\<close>

definition MainWindow_new :: "addr \<Rightarrow> addr \<Rightarrow> addr \<Rightarrow> MainWindow" where
  "MainWindow_new root_addr model_addr floor_addr =
     addFloor floor_addr
       \<lparr>partList = addModelPartToTree model_addr (ModelPartList_new root_addr),
        renderer = [], statusbar = [], messageBoxes = []\<rparr>"

text \<open>
  \<^verbatim>\<open>MainWindow::updateRenderFromTree(index)\<close> for a valid index; the argument is the part
  the index points to.  The part's actor, when it has one, is added; then, for every row
  \<open>i\<close> below \<^verbatim>\<open>rowCount(index)\<close>, the walk continues at \<^verbatim>\<open>partList->index(i, 0, index)\<close>, which
  is the index of the \<open>i\<close>-th child when the model has a column 0 and is invalid
  otherwise (\<open>ModelPartList_hasIndex\<close>); on an invalid index the function does nothing.
\<close>

fun updateRenderFromTree :: "ModelPartList \<Rightarrow> ModelPart \<Rightarrow> vtkRenderer \<Rightarrow> vtkRenderer" where
  "updateRenderFromTree L (ModelPart a m cs) r =
     (let r1 = (case getActor (ModelPart a m cs) of
                  None \<Rightarrow> r
                | Some act \<Rightarrow> AddActor (actor_addr act) r)
      in fold (\<lambda>childItem r2.
                 if 0 < ModelPartList_columnCount L QModelIndex_invalid
                 then updateRenderFromTree L childItem r2 else r2)
           cs r1)"

text \<open>\<^verbatim>\<open>MainWindow::updateRender\<close>: the renderer is emptied, then every top-level index is
  walked.  The camera calls do not change the set of props.\<close>

definition updateRender :: "MainWindow \<Rightarrow> MainWindow" where
  "updateRender w =
     (let L = partList w;
          topLevelItemCount = ModelPartList_rowCount L QModelIndex_invalid
      in w\<lparr>renderer :=
            fold (\<lambda>i r.
                    let topLevelIndex = ModelPartList_index L (int i) 0 QModelIndex_invalid
                    in if isValid topLevelIndex
                       then (case pointee L (internalPointer topLevelIndex) of
                               None \<Rightarrow> r
                             | Some selectedPart \<Rightarrow> updateRenderFromTree L selectedPart r)
                       else r)
              [0..<nat topLevelItemCount]
              (RemoveAllViewProps (renderer w))\<rparr>)"

text \<open>
  What \<^verbatim>\<open>MainWindow::applyPropertiesToPart\<close> writes to the part and to the part's actor:
  the name column when \<open>updateName\<close> is set, the visibility and colour columns, the
  colour and visibility members, and the actor's visibility and diffuse colour.
\<close>

definition applyProperties :: "QString \<Rightarrow> bool \<Rightarrow> QColor \<Rightarrow> bool \<Rightarrow> ModelPart \<Rightarrow> ModelPart" where
  "applyProperties name visibility colour updateName part =
     (let p1 = (if updateName then ModelPart_set part 0 (QVariant name) else part);
          p2 = ModelPart_set p1 1 (QVariant (if visibility then ''true'' else ''false''));
          p3 = ModelPart_set p2 2
                 (QVariant (QString_number (red colour) @ '','' @ QString_number (green colour)
                            @ '','' @ QString_number (blue colour)));
          p4 = setColour p3 (word_of_int (red colour)) (word_of_int (green colour))
                 (word_of_int (blue colour));
          p5 = setVisible p4 visibility
      in (case getActor p5 of
            None \<Rightarrow> p5
          | Some act \<Rightarrow>
              ModelPart (self p5)
                ((members p5)\<lparr>actor := Some (act\<lparr>Visibility := visibility,
                    DiffuseColor := (real_of_int (red colour) / 255,
                                     real_of_int (green colour) / 255,
                                     real_of_int (blue colour) / 255)\<rparr>)\<rparr>)
                (m_childItems p5)))"

text \<open>\<^verbatim>\<open>MainWindow::applyPropertiesToPart(part, name, visibility, color, updateName)\<close>: nothing
  on a null pointer; otherwise the writes above through the pointer and, when the part
  has an actor, \<^verbatim>\<open>updateRender()\<close>.  The \<^verbatim>\<open>dataChanged\<close> signal and the view's update only
  repaint the view.\<close>

definition applyPropertiesToPart ::
    "addr option \<Rightarrow> QString \<Rightarrow> bool \<Rightarrow> QColor \<Rightarrow> bool \<Rightarrow> MainWindow \<Rightarrow> MainWindow" where
  "applyPropertiesToPart part name visibility colour updateName w =
     (case pointee (partList w) part of
        None \<Rightarrow> w
      | Some p \<Rightarrow>
          (let w1 = w\<lparr>partList :=
                       through part (applyProperties name visibility colour updateName) (partList w)\<rparr>
           in (case getActor p of None \<Rightarrow> w1 | Some act \<Rightarrow> updateRender w1)))"

text \<open>
  \<^verbatim>\<open>MainWindow::updateChildrenProperties(part, visibility, color)\<close>.  The loop over
  \<^verbatim>\<open>part->child(i)\<close> and the recursion follow the child lists of the part passed in
  (\<open>applyPropertiesToPart\<close> never changes a child list); every write goes through the
  child's address into the window's tree.
\<close>

fun updateChildrenProperties :: "ModelPart \<Rightarrow> bool \<Rightarrow> QColor \<Rightarrow> MainWindow \<Rightarrow> MainWindow" where
  "updateChildrenProperties (ModelPart a m cs) visibility colour w =
     fold (\<lambda>childItem w1.
             updateChildrenProperties childItem visibility colour
               (applyPropertiesToPart (Some (self childItem)) [] visibility colour False w1))
       cs w"

text \<open>What the option dialog returns: whether it was accepted, and its three fields.\<close>

record OptionDialog =
  accepted :: bool
  getName :: QString
  getColor :: QColor
  getVisibility :: bool

text \<open>\<^verbatim>\<open>MainWindow::on_actionItemOptions_triggered\<close>, with the view's current index and the
  outcome of the dialog.\<close>

definition on_actionItemOptions_triggered :: "QModelIndex \<Rightarrow> OptionDialog \<Rightarrow> MainWindow \<Rightarrow> MainWindow" where
  "on_actionItemOptions_triggered currentIndex dialog w =
     (if \<not> isValid currentIndex then QMessageBox ''No Selection'' ''There is no selected part.'' w
      else (case pointee (partList w) (internalPointer currentIndex) of
              None \<Rightarrow> QMessageBox ''No Selection'' ''There is no selected part.'' w
            | Some selectedPart \<Rightarrow>
                if accepted dialog then
                  (let w1 = applyPropertiesToPart (internalPointer currentIndex) (getName dialog)
                              (getVisibility dialog) (getColor dialog) True w;
                       w2 = updateChildrenProperties selectedPart (getVisibility dialog)
                              (getColor dialog) w1
                   in statusUpdateMessage ''Item and its children updated.'' 2000 w2)
                else w))"

text \<open>\<^verbatim>\<open>QFileInfo(fileName).fileName()\<close>: what follows the last slash.\<close>

definition QFileInfo_fileName :: "QString \<Rightarrow> QString" where
  "QFileInfo_fileName path = rev (takeWhile (\<lambda>ch. ch \<noteq> CHR ''/'') (rev path))"

text \<open>
  \<^verbatim>\<open>MainWindow::createModelPartFromFile\<close>, in its two halves.  The worker builds the part
  (\<open>a\<close> its address, \<open>act\<close> the address of its actor); there is no test of what the reader
  produced.  The closure queued on the main thread reads the view's current index
  when it runs, appends the part, rebuilds the renderer, adds a floor (address \<open>fl\<close>)
  and emits the status message.
\<close>

definition createModelPartFromFile_worker ::
    "(QString \<Rightarrow> vtkPolyData option) \<Rightarrow> addr \<Rightarrow> addr \<Rightarrow> QString \<Rightarrow> ModelPart" where
  "createModelPartFromFile_worker parse a act fileName =
     (let justFileName = QFileInfo_fileName fileName;
          d = [QVariant justFileName, QVariant ''true'', QVariant ''255,255,255''];
          newPart = ModelPart_new a d None;
          newPart1 = loadSTL parse act newPart fileName;
          newPart2 = setColour newPart1 255 255 255
      in setVisible newPart2 True)"

definition createModelPartFromFile_queued ::
    "ModelPart \<Rightarrow> QString \<Rightarrow> addr \<Rightarrow> QModelIndex \<Rightarrow> MainWindow \<Rightarrow> MainWindow" where
  "createModelPartFromFile_queued newPart fileName fl currentIndex w =
     (let parentPart = (if isValid currentIndex then internalPointer currentIndex
                        else ModelPartList_getRootItem (partList w));
          w1 = w\<lparr>partList := through parentPart (\<lambda>p. appendChild p newPart) (partList w)\<rparr>;
          w2 = updateRender w1;
          w3 = addFloor fl w2
      in statusUpdateMessage (''Loaded STL file: '' @ fileName) 5000 w3)"

definition createModelPartFromFile ::
    "(QString \<Rightarrow> vtkPolyData option) \<Rightarrow> addr \<Rightarrow> addr \<Rightarrow> addr \<Rightarrow> QModelIndex \<Rightarrow> QString
       \<Rightarrow> MainWindow \<Rightarrow> MainWindow" where
  "createModelPartFromFile parse a act fl currentIndex fileName w =
     createModelPartFromFile_queued (createModelPartFromFile_worker parse a act fileName)
       fileName fl currentIndex w"

text \<open>\<^verbatim>\<open>MainWindow::on_actionNewGroup_triggered\<close> once the dialog is accepted: \<open>i\<close> is the
  index captured when the action was triggered, \<open>a\<close> the address of the new group.\<close>

definition on_actionNewGroup_triggered :: "QModelIndex \<Rightarrow> QString \<Rightarrow> addr \<Rightarrow> MainWindow \<Rightarrow> MainWindow" where
  "on_actionNewGroup_triggered i groupName a w =
     (let parentPart = (if isValid i then internalPointer i
                        else ModelPartList_getRootItem (partList w));
          newGroup = ModelPart_new a [QVariant groupName, QVariant ''true'', QVariant ''255,255,255''] None
      in w\<lparr>partList := through parentPart (\<lambda>p. appendChild p newGroup) (partList w)\<rparr>)"

text \<open>\<^verbatim>\<open>MainWindow::removeActorsRecursively(part)\<close>, on the renderer.\<close>

fun removeActorsRecursively :: "ModelPart \<Rightarrow> vtkRenderer \<Rightarrow> vtkRenderer" where
  "removeActorsRecursively (ModelPart a m cs) r =
     (let r1 = (case getActor (ModelPart a m cs) of
                  None \<Rightarrow> r
                | Some act \<Rightarrow> RemoveActor (actor_addr act) r)
      in fold removeActorsRecursively cs r1)"

datatype StandardButton = Yes | No

text \<open>
  \<^verbatim>\<open>MainWindow::on_actionDeleteFile_triggered\<close>, with the view's current index and the
  answer to the confirmation box.  After the confirmation the slot runs in two steps:
  first the actors of the selected part and of everything below it leave the renderer
  (\<open>deleteFile_removeActors\<close>), then the row is removed from the model
  (\<open>deleteFile_removeRows\<close>).
\<close>

definition deleteFile_removeActors :: "ModelPart \<Rightarrow> MainWindow \<Rightarrow> MainWindow" where
  "deleteFile_removeActors selectedItem w =
     w\<lparr>renderer := removeActorsRecursively selectedItem (renderer w)\<rparr>"

definition deleteFile_removeRows :: "QModelIndex \<Rightarrow> MainWindow \<Rightarrow> MainWindow" where
  "deleteFile_removeRows currentIndex w =
     (case ModelPartList_removeRows (partList w) (index_row currentIndex) 1
             (ModelPartList_parent (partList w) currentIndex) of
        (True, L') \<Rightarrow> statusUpdateMessage ''Item deleted successfully.'' 5000 (w\<lparr>partList := L'\<rparr>)
      | (False, L') \<Rightarrow> statusUpdateMessage ''Error deleting item.'' 5000 (w\<lparr>partList := L'\<rparr>))"

definition on_actionDeleteFile_triggered :: "QModelIndex \<Rightarrow> StandardButton \<Rightarrow> MainWindow \<Rightarrow> MainWindow" where
  "on_actionDeleteFile_triggered currentIndex response w =
     (if \<not> isValid currentIndex
      then QMessageBox ''Selection Error'' ''Please select an item to delete.'' w
      else (case pointee (partList w) (internalPointer currentIndex) of
              None \<Rightarrow> w
            | Some selectedItem \<Rightarrow>
                if toString (data selectedItem 0) = ''Model''
                then QMessageBox ''Invalid Operation'' ''Cannot delete root item.'' w
                else (let w1 = QMessageBox ''Confirm Deletion''
                                 ''Are you sure you want to delete this item?'' w
                      in if response = Yes
                         then deleteFile_removeRows currentIndex
                                (deleteFile_removeActors selectedItem w1)
                         else w1)))"

section \<open>Vocabulary of the properties\<close>




text \<open>
  A tree of live objects: no two parts share an address, and the parent pointer of
  every child is the address of the part that holds it.
\<close>

definition parents_ok :: "ModelPart \<Rightarrow> bool" where
  "parents_ok t = (\<forall>p \<in> set (nodes t). \<forall>c \<in> set (m_childItems p). parentItem c = Some (self p))"

definition well_formed :: "ModelPart \<Rightarrow> bool" where
  "well_formed t = (distinct (addrs t) \<and> parents_ok t)"

text \<open>\<^verbatim>\<open>n.parent().childAt(n.position()) == n\<close>, read in the tree.\<close>

definition position_ok :: "ModelPart \<Rightarrow> ModelPart \<Rightarrow> bool" where
  "position_ok tree n =
     (case parentItem n of
        None \<Rightarrow> False
      | Some p \<Rightarrow>
          (case deref tree p of
             None \<Rightarrow> False
           | Some parentPart \<Rightarrow> child parentPart (row tree n) = Some n))"

text \<open>
  The trees the member functions build: a root from the constructor; \<open>appendChild\<close> of a
  detached part (with whatever it owns) none of whose addresses is in the tree, run on
  any part of the tree; \<open>removeChild\<close> run on any part at any position; and the property
  writes of \<open>applyPropertiesToPart\<close>.
\<close>

inductive tree_state :: "ModelPart \<Rightarrow> bool" where
  root: "tree_state (ModelPart_new a d None)"
| append: "tree_state t \<Longrightarrow> well_formed item \<Longrightarrow> set (addrs item) \<inter> set (addrs t) = {}
     \<Longrightarrow> tree_state (modify p (\<lambda>this. appendChild this item) t)"
| remove: "tree_state t \<Longrightarrow> tree_state (modify p (\<lambda>this. removeChild this position) t)"
| properties: "tree_state t \<Longrightarrow> tree_state (modify p (applyProperties name visibility colour updateName) t)"

text \<open>A part carries visibility \<open>v\<close> and the colour bytes of \<open>c\<close>.\<close>

definition carries :: "ModelPart \<Rightarrow> bool \<Rightarrow> QColor \<Rightarrow> bool" where
  "carries n v c =
     (visible n = v \<and> getColourR n = word_of_int (red c) \<and> getColourG n = word_of_int (green c)
      \<and> getColourB n = word_of_int (blue c))"

text \<open>The label of a part is its column 0.\<close>

definition label :: "ModelPart \<Rightarrow> QVariant" where
  "label n = data n 0"

text \<open>Auxiliary: a function on the members applied at every address of a set.\<close>

fun map_members :: "(addr \<Rightarrow> ModelPart_members \<Rightarrow> ModelPart_members) \<Rightarrow> ModelPart \<Rightarrow> ModelPart" where
  "map_members h (ModelPart a m cs) = ModelPart a (h a m) (map (map_members h) cs)"

definition applyProperties_members ::
    "QString \<Rightarrow> bool \<Rightarrow> QColor \<Rightarrow> bool \<Rightarrow> ModelPart_members \<Rightarrow> ModelPart_members" where
  "applyProperties_members name visibility colour updateName m =
     members (applyProperties name visibility colour updateName (ModelPart 0 m []))"

section \<open>Example states\<close>

text \<open>
  States of the window used as concrete inputs: the window as constructed (root at
  address 10, the part \<^verbatim>\<open>"Model"\<close> at 11, the floor actor 100); after \<^verbatim>\<open>cube.stl\<close> was loaded
  under the root (part 12, actor 101, new floor 102) with a reader that decodes it;
  after Item Options then switched the visibility of that part off; and the
  constructed window after New Group added \<^verbatim>\<open>"Assembly"\<close> (part 13) under \<^verbatim>\<open>"Model"\<close>.
  \<open>example_cube\<close>, \<open>example_model\<close> and \<open>example_assembly\<close> are the parts 12, 11 and 13 as
  they stand in \<open>example_loaded\<close> and \<open>example_group\<close>.
\<close>

definition example_window :: MainWindow where
  "example_window = MainWindow_new 10 11 100"



definition example_group :: MainWindow where
  "example_group =
     on_actionNewGroup_triggered (createIndex 0 0 (Some 11)) ''Assembly'' 13 example_window"


definition example_assembly :: ModelPart where
  "example_assembly =
     ModelPart 13
       \<lparr>m_itemData = [QVariant ''Assembly'', QVariant ''true'', QVariant ''255,255,255''],
        m_parentItem = Some 11, isVisible = False, color = QColor_invalid, reader = None,
        actor = None\<rparr> []"

definition example_model :: ModelPart where
  "example_model =
     ModelPart 11
       \<lparr>m_itemData = [QVariant ''Model'', QVariant ''true'', QVariant ''255,255,255''],
        m_parentItem = Some 10, isVisible = False, color = QColor_invalid, reader = None,
        actor = None\<rparr> [example_assembly]"

text \<open>An accepted option dialog that renames the part and switches it on.\<close>

definition example_dialog :: OptionDialog where
  "example_dialog =
     \<lparr>accepted = True, getName = ''Chassis'', getColor = QColor 30 60 90, getVisibility = True\<rparr>"

section \<open>Pointers into the tree\<close>

lemma self_in_nodes: "t \<in> set (nodes t)"
  by (cases t) simp

lemma nodes_child_subset: "c \<in> set (m_childItems t) \<Longrightarrow> set (nodes c) \<subseteq> set (nodes t)"
  by (cases t) auto

lemma nodes_trans: "n \<in> set (nodes t) \<Longrightarrow> set (nodes n) \<subseteq> set (nodes t)"
proof (induction t)
  case (ModelPart a m cs)
  then show ?case by fastforce
qed

lemma nodes_cases:
  "n \<in> set (nodes t) \<longleftrightarrow> n = t \<or> (\<exists>c \<in> set (m_childItems t). n \<in> set (nodes c))"
  by (cases t) auto

lemma addrs_simps: "addrs (ModelPart a m cs) = a # concat (map addrs cs)"
  unfolding addrs_def by (simp add: map_concat comp_def)

lemma find_append:
  "find P (xs @ ys) = (case find P xs of None \<Rightarrow> find P ys | Some x \<Rightarrow> Some x)"
  by (induction xs) auto

lemma deref_simps:
  "deref (ModelPart a m cs) p =
     (if a = p then Some (ModelPart a m cs) else find (\<lambda>n. self n = p) (concat (map nodes cs)))"
  by (simp add: deref_def)

lemma find_concat_Cons:
  "find P (concat (map nodes (c # cs))) =
     (case find P (nodes c) of Some n \<Rightarrow> Some n | None \<Rightarrow> find P (concat (map nodes cs)))"
  by (simp add: find_append split: option.splits)

lemma deref_Some_D: "deref t p = Some n \<Longrightarrow> n \<in> set (nodes t) \<and> self n = p"
  by (auto simp: deref_def find_Some_iff)

lemma deref_None_iff: "deref t p = None \<longleftrightarrow> p \<notin> set (addrs t)"
  by (auto simp: deref_def addrs_def find_None_iff)

lemma deref_self: "deref t (self t) = Some t"
  by (cases t) (simp add: deref_def)

lemma find_distinct_self:
  "distinct (map f xs) \<Longrightarrow> x \<in> set xs \<Longrightarrow> find (\<lambda>y. f y = f x) xs = Some x"
  by (induction xs) (auto)

lemma deref_distinct: "distinct (addrs t) \<Longrightarrow> n \<in> set (nodes t) \<Longrightarrow> deref t (self n) = Some n"
  unfolding deref_def addrs_def by (rule find_distinct_self)

lemma modify_absent: "p \<notin> set (addrs t) \<Longrightarrow> modify p f t = t"
proof (induction t)
  case (ModelPart a m cs)
  then have "map (modify p f) cs = cs"
    by (intro map_idI) (auto simp: addrs_simps)
  with ModelPart.prems show ?case by (simp add: addrs_simps)
qed

lemma deref_modify_list:
  assumes "\<And>c. c \<in> set cs \<Longrightarrow> deref c p = Some n \<Longrightarrow> deref (modify p f c) p = Some (g n)"
    and "find (\<lambda>n. self n = p) (concat (map nodes cs)) = Some n"
  shows "find (\<lambda>n. self n = p) (concat (map nodes (map (modify p f) cs))) = Some (g n)"
  using assms
proof (induction cs)
  case Nil
  then show ?case by simp
next
  case (Cons c cs)
  show ?case
  proof (cases "deref c p")
    case None
    then have "modify p f c = c" by (simp add: deref_None_iff modify_absent)
    with None Cons show ?thesis
      by (simp add: find_append deref_def split: option.splits)
  next
    case (Some n')
    with Cons.prems(2) have "n' = n" by (simp add: find_append deref_def)
    with Some Cons.prems(1)[of c] show ?thesis
      by (simp add: find_append deref_def)
  qed
qed

lemma deref_modify:
  "deref t p = Some n \<Longrightarrow> self (f n) = p \<Longrightarrow> deref (modify p f t) p = Some (f n)"
proof (induction t)
  case (ModelPart a m cs)
  show ?case
  proof (cases "a = p")
    case True
    with ModelPart.prems have "n = ModelPart a m cs" by (simp add: deref_simps)
    with True ModelPart.prems(2) show ?thesis
      using deref_self[of "f n"] by simp
  next
    case False
    with ModelPart.prems have fnd: "find (\<lambda>n. self n = p) (concat (map nodes cs)) = Some n"
      by (simp add: deref_simps)
    have "find (\<lambda>n. self n = p) (concat (map nodes (map (modify p f) cs))) = Some (f n)"
      by (rule deref_modify_list[OF _ fnd]) (use ModelPart.IH ModelPart.prems(2) in auto)
    with False show ?thesis by (simp add: deref_simps)
  qed
qed



lemma self_appendChild [simp]: "self (appendChild this item) = self this"
  by (simp add: appendChild_def)

lemma self_removeChild [simp]: "self (removeChild this k) = self this"
  by (simp add: removeChild_def)

lemma members_removeChild [simp]: "members (removeChild this k) = members this"
  by (simp add: removeChild_def)

lemma pointee_through:
  "pointee L p = Some n \<Longrightarrow> self (f n) = self n \<Longrightarrow> pointee (through p f L) p = Some (f n)"
  by (cases p) (auto simp: pointee_def through_def dest: deref_Some_D intro!: deref_modify)

lemma pointee_root: "pointee L (ModelPartList_getRootItem L) = Some (rootItem L)"
  by (simp add: pointee_def ModelPartList_getRootItem_def deref_self)



lemma partList_updateRender [simp]: "partList (updateRender w) = partList w"
  by (simp add: updateRender_def Let_def)

lemma statusbar_updateRender [simp]: "statusbar (updateRender w) = statusbar w"
  by (simp add: updateRender_def Let_def)

lemma messageBoxes_updateRender [simp]: "messageBoxes (updateRender w) = messageBoxes w"
  by (simp add: updateRender_def Let_def)

lemma example_window_eq:
  "example_window =
     \<lparr>partList = \<lparr>rootItem = ModelPart 10
         \<lparr>m_itemData = [QVariant ''Part'', QVariant ''Visible?'', QVariant ''Colour''],
          m_parentItem = None, isVisible = False, color = QColor_invalid, reader = None, actor = None\<rparr>
         [ModelPart 11
           \<lparr>m_itemData = [QVariant ''Model'', QVariant ''true'', QVariant ''255,255,255''],
            m_parentItem = Some 10, isVisible = False, color = QColor_invalid, reader = None,
            actor = None\<rparr> []]\<rparr>,
      renderer = [100], statusbar = [], messageBoxes = []\<rparr>"
  by (simp add: example_window_def MainWindow_new_def addFloor_def addModelPartToTree_def
        ModelPartList_new_def ModelPartList_getRootItem_def through_def ModelPart_new_def
        appendChild_def Let_def AddActor_def)


lemma worker_actor:
  "getActor (createModelPartFromFile_worker parse a act f) =
     Some \<lparr>actor_addr = act, InputConnection = \<lparr>FileName = f, Output = parse f\<rparr>,
           Visibility = True, DiffuseColor = (1, 1, 1)\<rparr>"
  by (simp add: createModelPartFromFile_worker_def Let_def loadSTL_def setColour_def
      setVisible_def getActor_def ModelPart_new_def)


lemma childCount_appendChild: "childCount (appendChild P x) = childCount P + 1"
  by (simp add: childCount_def appendChild_def)



lemma partList_QMessageBox [simp]: "partList (QMessageBox t x w) = partList w"
  by (simp add: QMessageBox_def)

lemma partList_statusUpdateMessage [simp]: "partList (statusUpdateMessage t x w) = partList w"
  by (simp add: statusUpdateMessage_def)

lemma partList_deleteFile_removeActors [simp]: "partList (deleteFile_removeActors n w) = partList w"
  by (simp add: deleteFile_removeActors_def)




lemma statusbar_createModelPartFromFile:
  "statusbar (createModelPartFromFile parse a act fl i fileName w)
     = statusbar w @ [(''Loaded STL file: '' @ fileName, 5000)] \<and>
   messageBoxes (createModelPartFromFile parse a act fl i fileName w) = messageBoxes w"
  by (simp add: createModelPartFromFile_def createModelPartFromFile_queued_def Let_def
      statusUpdateMessage_def addFloor_def)

lemma partList_createModelPartFromFile:
  "partList (createModelPartFromFile parse a act fl i fileName w)
     = through (if isValid i then internalPointer i else ModelPartList_getRootItem (partList w))
         (\<lambda>p. appendChild p (createModelPartFromFile_worker parse a act fileName)) (partList w)"
  by (simp add: createModelPartFromFile_def createModelPartFromFile_queued_def Let_def
      statusUpdateMessage_def addFloor_def)


lemma isValid_createIndex: "isValid (createIndex r c p) \<longleftrightarrow> 0 \<le> r \<and> 0 \<le> c"
  by (simp add: isValid_def createIndex_def)


section \<open>Well-formed trees\<close>

lemma nodes_parent:
  "n \<in> set (nodes t) \<Longrightarrow> n = t \<or> (\<exists>P \<in> set (nodes t). n \<in> set (m_childItems P))"
proof (induction t)
  case (ModelPart a m cs)
  show ?case
  proof (cases "n = ModelPart a m cs")
    case True
    then show ?thesis by simp
  next
    case False
    with ModelPart.prems obtain c where c: "c \<in> set cs" "n \<in> set (nodes c)" by auto
    from ModelPart.IH[OF c] show ?thesis
    proof
      assume "n = c"
      with c(1) show ?thesis by auto
    next
      assume "\<exists>P\<in>set (nodes c). n \<in> set (m_childItems P)"
      with c(1) show ?thesis by auto
    qed
  qed
qed

lemma self_in_addrs: "self t \<in> set (addrs t)"
  by (cases t) (simp add: addrs_simps)

lemma addrs_mono: "n \<in> set (nodes t) \<Longrightarrow> set (addrs n) \<subseteq> set (addrs t)"
  using nodes_trans[of n t] by (auto simp: addrs_def)

lemma distinct_concat_member:
  "distinct (concat xss) \<Longrightarrow> xs \<in> set xss \<Longrightarrow> distinct xs"
  by (induction xss) auto

lemma distinct_child:
  "distinct (addrs (ModelPart a m cs)) \<Longrightarrow> c \<in> set cs \<Longrightarrow> distinct (addrs c)"
  using distinct_concat_member[of "map addrs cs" "addrs c"] by (simp add: addrs_simps)

lemma distinct_sub: "n \<in> set (nodes t) \<Longrightarrow> distinct (addrs t) \<Longrightarrow> distinct (addrs n)"
proof (induction t)
  case (ModelPart a m cs)
  then show ?case using distinct_child[of a m cs] by auto
qed

lemma distinct_concat_heads:
  "distinct (concat (map addrs cs)) \<Longrightarrow> distinct (map self cs)"
proof (induction cs)
  case Nil
  then show ?case by simp
next
  case (Cons c cs)
  have "self c \<in> set (addrs c)" by (rule self_in_addrs)
  moreover have "\<And>c'. c' \<in> set cs \<Longrightarrow> self c' \<in> set (concat (map addrs cs))"
    using self_in_addrs by auto
  ultimately show ?case using Cons by auto
qed

lemma distinct_children_self:
  "distinct (addrs t) \<Longrightarrow> distinct (map self (m_childItems t))"
  by (cases t) (simp add: addrs_simps distinct_concat_heads)

lemma indexOf_nth: "distinct xs \<Longrightarrow> k < length xs \<Longrightarrow> indexOf xs (xs ! k) = int k"
proof (induction xs arbitrary: k)
  case Nil
  then show ?case by simp
next
  case (Cons x xs)
  then show ?case by (cases k) (auto simp: Let_def)
qed

lemma position_lemma:
  assumes "well_formed t" "n \<in> set (nodes t)" "n \<noteq> t"
  shows "\<exists>P k. P \<in> set (nodes t) \<and> parentItem n = Some (self P) \<and> deref t (self P) = Some P \<and>
           k < length (m_childItems P) \<and> m_childItems P ! k = n \<and> row t n = int k"
proof -
  from assms have d: "distinct (addrs t)" and po: "parents_ok t"
    by (simp_all add: well_formed_def)
  from nodes_parent[OF assms(2)] assms(3)
  obtain P where P: "P \<in> set (nodes t)" "n \<in> set (m_childItems P)" by auto
  then have par: "parentItem n = Some (self P)" using po by (auto simp: parents_ok_def)
  have der: "deref t (self P) = Some P" using d P(1) by (rule deref_distinct)
  from P(2) obtain k where k: "k < length (m_childItems P)" "m_childItems P ! k = n"
    by (auto simp: in_set_conv_nth)
  have "distinct (map self (m_childItems P))"
    using distinct_children_self distinct_sub[OF P(1) d] by blast
  from indexOf_nth[OF this, of k] k
  have "indexOf (map self (m_childItems P)) (self n) = int k" by simp
  then have "row t n = int k"
    using par der by (simp add: row_def parentItem_def)
  with P(1) par der k show ?thesis by blast
qed

lemma well_formed_position_ok:
  assumes "well_formed t" "n \<in> set (nodes t)" "n \<noteq> t"
  shows "position_ok t n"
proof -
  from position_lemma[OF assms] obtain P k where
    "parentItem n = Some (self P)" "deref t (self P) = Some P"
    "k < length (m_childItems P)" "m_childItems P ! k = n" "row t n = int k" by blast
  then show ?thesis by (simp add: position_ok_def child_def)
qed

lemma parents_ok_simps:
  "parents_ok (ModelPart a m cs) \<longleftrightarrow> (\<forall>c \<in> set cs. parentItem c = Some a \<and> parents_ok c)"
  by (auto simp: parents_ok_def)

lemma parentItem_modify:
  "(\<And>n. parentItem (f n) = parentItem n) \<Longrightarrow> parentItem (modify p f t) = parentItem t"
  by (cases t) (simp add: parentItem_def)

lemma parents_ok_modify:
  assumes "\<And>n. parents_ok n \<Longrightarrow> parents_ok (f n)"
    and "\<And>n. parentItem (f n) = parentItem n"
  shows "parents_ok t \<Longrightarrow> parents_ok (modify p f t)"
proof (induction t)
  case (ModelPart a m cs)
  show ?case
  proof (cases "p = a")
    case True
    with ModelPart.prems assms(1) show ?thesis by simp
  next
    case False
    with ModelPart show ?thesis
      by (simp add: parents_ok_simps parentItem_modify assms(2))
  qed
qed

lemma distinct_concat_map_modify:
  assumes "distinct (concat (map A cs))"
    and "\<And>c. c \<in> set cs \<Longrightarrow>
           distinct (B c) \<and> set (B c) \<subseteq> set (A c) \<union> (if p \<in> set (A c) then X else {})"
    and "X \<inter> set (concat (map A cs)) = {}"
  shows "distinct (concat (map B cs))"
  using assms
proof (induction cs)
  case Nil
  then show ?case by simp
next
  case (Cons c cs)
  have IH: "distinct (concat (map B cs))"
    using Cons by auto
  have c: "distinct (B c)" "set (B c) \<subseteq> set (A c) \<union> (if p \<in> set (A c) then X else {})"
    using Cons.prems(2)[of c] by auto
  have disj: "set (B c) \<inter> set (concat (map B cs)) = {}"
  proof (rule ccontr)
    assume "set (B c) \<inter> set (concat (map B cs)) \<noteq> {}"
    then obtain x c' where x: "x \<in> set (B c)" "c' \<in> set cs" "x \<in> set (B c')" by auto
    have c': "set (B c') \<subseteq> set (A c') \<union> (if p \<in> set (A c') then X else {})"
      using Cons.prems(2)[of c'] x(2) by auto
    have AA: "set (A c) \<inter> set (A c') = {}" using Cons.prems(1) x(2) by auto
    have XA: "X \<inter> set (A c) = {}" "X \<inter> set (A c') = {}" using Cons.prems(3) x(2) by auto
    from x c c' AA XA show False
      by (auto split: if_splits; blast)
  qed
  from IH c(1) disj show ?case by simp
qed

lemma distinct_modify:
  assumes "\<And>n. set (addrs (f n)) \<subseteq> set (addrs n) \<union> X"
    and "\<And>n. distinct (addrs n) \<Longrightarrow> X \<inter> set (addrs n) = {} \<Longrightarrow> distinct (addrs (f n))"
  shows "distinct (addrs t) \<Longrightarrow> X \<inter> set (addrs t) = {} \<Longrightarrow>
         distinct (addrs (modify p f t)) \<and>
         set (addrs (modify p f t)) \<subseteq> set (addrs t) \<union> (if p \<in> set (addrs t) then X else {})"
proof (induction t)
  case (ModelPart a m cs)
  show ?case
  proof (cases "p = a")
    case True
    with ModelPart.prems assms[of "ModelPart a m cs"] show ?thesis
      by (auto simp: addrs_simps)
  next
    case False
    have ch: "\<And>c. c \<in> set cs \<Longrightarrow>
        distinct (addrs (modify p f c)) \<and>
        set (addrs (modify p f c)) \<subseteq> set (addrs c) \<union> (if p \<in> set (addrs c) then X else {})"
    proof -
      fix c assume c: "c \<in> set cs"
      have "distinct (addrs c)" using ModelPart.prems(1) c by (rule distinct_child)
      moreover have "X \<inter> set (addrs c) = {}" using ModelPart.prems(2) c by (auto simp: addrs_simps)
      ultimately show "distinct (addrs (modify p f c)) \<and>
        set (addrs (modify p f c)) \<subseteq> set (addrs c) \<union> (if p \<in> set (addrs c) then X else {})"
        using ModelPart.IH[OF c] by blast
    qed
    have d: "distinct (concat (map (\<lambda>c. addrs (modify p f c)) cs))"
      by (rule distinct_concat_map_modify[where A = addrs and p = p and X = X])
         (use ModelPart.prems ch in \<open>auto simp: addrs_simps\<close>)
    have sub: "set (concat (map (\<lambda>c. addrs (modify p f c)) cs))
                 \<subseteq> set (concat (map addrs cs)) \<union> (if p \<in> set (concat (map addrs cs)) then X else {})"
      using ch by (fastforce split: if_splits)
    have a: "a \<notin> set (concat (map (\<lambda>c. addrs (modify p f c)) cs))"
      using sub ModelPart.prems by (auto simp: addrs_simps split: if_splits)
    from False d sub a show ?thesis
      by (auto simp: addrs_simps comp_def split: if_splits)
  qed
qed

lemma addrs_appendChild: "addrs (appendChild n item) = addrs n @ addrs item"
  by (cases n; cases item) (simp add: appendChild_def addrs_simps)

lemma parentItem_appendChild [simp]: "parentItem (appendChild n item) = parentItem n"
  by (simp add: appendChild_def parentItem_def)

lemma parents_ok_appendChild:
  "parents_ok n \<Longrightarrow> parents_ok item \<Longrightarrow> parents_ok (appendChild n item)"
  by (cases n; cases item) (auto simp: appendChild_def parents_ok_simps parentItem_def)

lemma parentItem_removeChild [simp]: "parentItem (removeChild n k) = parentItem n"
  by (simp add: removeChild_def parentItem_def)

lemma parents_ok_removeChild: "parents_ok n \<Longrightarrow> parents_ok (removeChild n k)"
  by (cases n) (auto simp: removeChild_def parents_ok_simps dest: in_set_takeD in_set_dropD)

lemma addrs_removeChild:
  "set (addrs (removeChild n k)) \<subseteq> set (addrs n) \<and>
   (distinct (addrs n) \<longrightarrow> distinct (addrs (removeChild n k)))"
proof (cases n)
  case (ModelPart a m cs)
  show ?thesis
  proof (cases "k < 0 \<or> k \<ge> int (length cs)")
    case True
    with ModelPart show ?thesis by (simp add: removeChild_def)
  next
    case False
    then have "cs = take (nat k) cs @ cs ! nat k # drop (Suc (nat k)) cs"
      by (intro id_take_nth_drop) auto
    then obtain xs y ys where cs: "cs = xs @ y # ys" "take (nat k) cs = xs" "drop (Suc (nat k)) cs = ys"
      by metis
    with False ModelPart show ?thesis
      by (auto simp: removeChild_def addrs_simps)
  qed
qed

lemma ModelPart_set_eq:
  assumes "0 \<le> k"
  shows "ModelPart_set (ModelPart a m cs) k x =
     ModelPart a (m\<lparr>m_itemData := (m_itemData m)[nat k := x]\<rparr>) cs"
proof (cases "k < int (length (m_itemData m))")
  case True
  with assms show ?thesis by (simp add: ModelPart_set_def)
next
  case False
  then have "(m_itemData m)[nat k := x] = m_itemData m"
    by (intro list_update_beyond) linarith
  with False show ?thesis by (simp add: ModelPart_set_def)
qed

lemma setColour_eq: "setColour (ModelPart a m cs) R G B = ModelPart a (m\<lparr>color := QColor R G B\<rparr>) cs"
  by (simp add: setColour_def)

lemma setVisible_eq: "setVisible (ModelPart a m cs) v = ModelPart a (m\<lparr>isVisible := v\<rparr>) cs"
  by (simp add: setVisible_def)

lemma getActor_eq: "getActor (ModelPart a m cs) = actor m"
  by (simp add: getActor_def)

lemma applyProperties_ModelPart:
  "applyProperties name v c u (ModelPart a m cs) =
     ModelPart a
       (m\<lparr>m_itemData :=
            ((if u then (m_itemData m)[0 := QVariant name] else m_itemData m)
               [1 := QVariant (if v then ''true'' else ''false'')])
               [2 := QVariant (QString_number (red c) @ '','' @ QString_number (green c)
                            @ '','' @ QString_number (blue c))],
          color := QColor (word_of_int (red c)) (word_of_int (green c)) (word_of_int (blue c)),
          isVisible := v,
          actor := map_option (\<lambda>act. act\<lparr>Visibility := v,
                      DiffuseColor := (real_of_int (red c) / 255, real_of_int (green c) / 255,
                                       real_of_int (blue c) / 255)\<rparr>) (actor m)\<rparr>) cs"
  by (cases u; cases "actor m")
     (simp_all add: applyProperties_def Let_def ModelPart_set_eq setColour_eq setVisible_eq
        getActor_eq split del: if_split)

lemma applyProperties_eq:
  "applyProperties name v c u n =
     ModelPart (self n) (applyProperties_members name v c u (members n)) (m_childItems n)"
  by (cases n) (simp add: applyProperties_members_def applyProperties_ModelPart split del: if_split)

lemma m_parentItem_applyProperties_members [simp]:
  "m_parentItem (applyProperties_members name v c u m) = m_parentItem m"
  by (simp add: applyProperties_members_def applyProperties_ModelPart split del: if_split)

lemma addrs_members [simp]: "addrs (ModelPart a m' cs) = addrs (ModelPart a m cs)"
  by (simp add: addrs_simps)

lemma parents_ok_members: "parents_ok (ModelPart a m' cs) = parents_ok (ModelPart a m cs)"
  by (simp add: parents_ok_simps)

lemma well_formed_root: "well_formed (ModelPart_new a d q)"
  by (simp add: well_formed_def ModelPart_new_def addrs_simps parents_ok_simps)

lemma well_formed_append:
  assumes "well_formed t" "well_formed item" "set (addrs item) \<inter> set (addrs t) = {}"
  shows "well_formed (modify p (\<lambda>this. appendChild this item) t)"
proof -
  have "distinct (addrs (modify p (\<lambda>this. appendChild this item) t))"
    using distinct_modify[where f = "\<lambda>this. appendChild this item" and X = "set (addrs item)"
        and t = t and p = p] assms
    by (auto simp: addrs_appendChild well_formed_def)
  moreover have "parents_ok (modify p (\<lambda>this. appendChild this item) t)"
    using assms by (intro parents_ok_modify) (simp_all add: parents_ok_appendChild well_formed_def)
  ultimately show ?thesis by (simp add: well_formed_def)
qed

lemma well_formed_remove:
  assumes "well_formed t"
  shows "well_formed (modify p (\<lambda>this. removeChild this k) t)"
proof -
  have "distinct (addrs (modify p (\<lambda>this. removeChild this k) t))"
    using distinct_modify[where f = "\<lambda>this. removeChild this k" and X = "{}" and t = t and p = p]
      assms addrs_removeChild
    by (auto simp: well_formed_def)
  moreover have "parents_ok (modify p (\<lambda>this. removeChild this k) t)"
    using assms by (intro parents_ok_modify) (simp_all add: parents_ok_removeChild well_formed_def)
  ultimately show ?thesis by (simp add: well_formed_def)
qed

lemma addrs_applyProperties [simp]: "addrs (applyProperties name v c u n) = addrs n"
  by (cases n) (simp add: applyProperties_eq addrs_simps)

lemma parents_ok_applyProperties: "parents_ok n \<Longrightarrow> parents_ok (applyProperties name v c u n)"
  by (cases n) (simp add: applyProperties_eq parents_ok_simps)

lemma parentItem_applyProperties [simp]: "parentItem (applyProperties name v c u n) = parentItem n"
  by (simp add: applyProperties_eq parentItem_def)

lemma well_formed_properties:
  assumes "well_formed t"
  shows "well_formed (modify p (applyProperties name v c u) t)"
proof -
  have "distinct (addrs (modify p (applyProperties name v c u) t))"
    using distinct_modify[where f = "applyProperties name v c u" and X = "{}" and t = t and p = p]
      assms
    by (simp add: well_formed_def)
  moreover have "parents_ok (modify p (applyProperties name v c u) t)"
    using assms
    by (intro parents_ok_modify) (simp_all add: well_formed_def parents_ok_applyProperties)
  ultimately show ?thesis by (simp add: well_formed_def)
qed

lemma tree_state_well_formed: "tree_state t \<Longrightarrow> well_formed t"
  by (induction rule: tree_state.induct)
     (simp_all add: well_formed_root well_formed_append well_formed_remove well_formed_properties)

section \<open>The renderer after updateRender\<close>











lemma child_in_nodes: "i < length (m_childItems t) \<Longrightarrow> m_childItems t ! i \<in> set (nodes t)"
  using nodes_child_subset[of "m_childItems t ! i" t] self_in_nodes[of "m_childItems t ! i"]
  by auto



lemma partList_applyPropertiesToPart:
  "partList (applyPropertiesToPart part name v c u w)
     = through part (applyProperties name v c u) (partList w)"
proof (cases "pointee (partList w) part")
  case None
  then have "through part (applyProperties name v c u) (partList w) = partList w"
    by (cases part) (simp_all add: through_def pointee_def deref_None_iff modify_absent)
  with None show ?thesis by (simp add: applyPropertiesToPart_def)
next
  case (Some p)
  then show ?thesis by (simp add: applyPropertiesToPart_def Let_def split: option.splits)
qed

lemma partList_updateChildrenProperties_leaf [simp]:
  "updateChildrenProperties (ModelPart a m []) v c w = w"
  by simp



lemma renderer_updateRender_partList:
  "partList w = partList w' \<Longrightarrow> renderer (updateRender w) = renderer (updateRender w')"
  by (simp add: updateRender_def Let_def RemoveAllViewProps_def)


section \<open>Removing actors and rows\<close>




lemma getItem_valid: "isValid i \<Longrightarrow> ModelPartList_getItem L i = internalPointer i"
  by (simp add: ModelPartList_getItem_def)


lemma not_isValid_invalid [simp]: "\<not> isValid QModelIndex_invalid"
  by (simp add: isValid_def QModelIndex_invalid_def)



text \<open>
  The walk of \<open>updateRenderFromTree\<close> through indexes: at a valid column-0 index that
  points to a part \<open>n\<close> of a tree of live parts, \<open>ModelPartList_rowCount\<close> is the child
  count of \<open>n\<close>, and \<open>ModelPartList_index\<close> at row \<open>k\<close> under it is the valid index
  that points to the \<open>k\<close>-th child of \<open>n\<close>.
\<close>

lemma index_of_child:
  assumes "distinct (addrs (rootItem L))" "0 < ModelPartList_columnCount L QModelIndex_invalid"
    and "isValid idx" "index_column idx = 0" "pointee L (internalPointer idx) = Some n"
    and "k < length (m_childItems n)"
  shows "ModelPartList_rowCount L idx = childCount n \<and>
         ModelPartList_index L (int k) 0 idx = createIndex (int k) 0 (Some (self (m_childItems n ! k))) \<and>
         isValid (ModelPartList_index L (int k) 0 idx) \<and>
         pointee L (internalPointer (ModelPartList_index L (int k) 0 idx)) = Some (m_childItems n ! k)"
proof -
  have rc: "ModelPartList_rowCount L idx = childCount n"
    using assms(3,4,5) by (simp add: ModelPartList_rowCount_def getItem_valid)
  have ix: "ModelPartList_index L (int k) 0 idx
              = createIndex (int k) 0 (Some (self (m_childItems n ! k)))"
    using assms(2,3,5,6) rc
    by (simp add: ModelPartList_index_def ModelPartList_hasIndex_def getItem_valid childCount_def
        child_def ModelPartList_columnCount_def)
  have "n \<in> set (nodes (rootItem L))"
    using assms(5) by (cases "internalPointer idx") (auto simp: pointee_def dest: deref_Some_D)
  then have "m_childItems n ! k \<in> set (nodes (rootItem L))"
    using child_in_nodes[OF assms(6)] nodes_trans by blast
  then have "pointee L (Some (self (m_childItems n ! k))) = Some (m_childItems n ! k)"
    using deref_distinct[OF assms(1)] by (simp add: pointee_def)
  with rc ix show ?thesis by (simp add: isValid_createIndex) (simp add: createIndex_def)
qed


section \<open>The tree after the properties were applied\<close>

lemma self_map_members [simp]: "self (map_members h t) = self t"
  by (cases t) simp

lemma members_map_members [simp]: "members (map_members h t) = h (self t) (members t)"
  by (cases t) simp

lemma m_childItems_map_members [simp]:
  "m_childItems (map_members h t) = map (map_members h) (m_childItems t)"
  by (cases t) simp

lemma nodes_map_members: "nodes (map_members h t) = map (map_members h) (nodes t)"
proof (induction t)
  case (ModelPart a m cs)
  then have "map (\<lambda>c. nodes (map_members h c)) cs = map (\<lambda>c. map (map_members h) (nodes c)) cs"
    by (intro map_cong) simp_all
  then show ?case by (simp add: map_concat comp_def del: map_eq_conv)
qed

lemma addrs_map_members [simp]: "addrs (map_members h t) = addrs t"
  by (simp add: addrs_def nodes_map_members comp_def)

lemma find_map: "find P (map f xs) = map_option f (find (P \<circ> f) xs)"
  by (induction xs) simp_all

lemma deref_map_members: "deref (map_members h t) a = map_option (map_members h) (deref t a)"
  by (simp add: deref_def nodes_map_members find_map comp_def)

lemma map_members_cong:
  "(\<And>a. a \<in> set (addrs t) \<Longrightarrow> h a = h' a) \<Longrightarrow> map_members h t = map_members h' t"
proof (induction t)
  case (ModelPart a m cs)
  have "map (map_members h) cs = map (map_members h') cs"
    using ModelPart by (intro map_cong) (auto simp: addrs_simps)
  with ModelPart.prems[of a] show ?case by (simp add: addrs_simps)
qed

lemma map_members_id: "(\<And>a. a \<in> set (addrs t) \<Longrightarrow> h a = id) \<Longrightarrow> map_members h t = t"
proof (induction t)
  case (ModelPart a m cs)
  have "map (map_members h) cs = cs"
    using ModelPart by (intro map_idI) (auto simp: addrs_simps)
  with ModelPart.prems[of a] show ?case by (simp add: addrs_simps)
qed

lemma map_members_comp:
  "map_members h1 (map_members h2 t) = map_members (\<lambda>a. h1 a \<circ> h2 a) t"
  by (induction t) simp

lemma modify_members:
  assumes "distinct (addrs t)"
  shows "modify p (\<lambda>n. ModelPart (self n) (G (members n)) (m_childItems n)) t
           = map_members (\<lambda>a m. if a = p then G m else m) t"
  using assms
proof (induction t)
  case (ModelPart a m cs)
  show ?case
  proof (cases "p = a")
    case True
    have "map (map_members (\<lambda>a m. if a = p then G m else m)) cs = cs"
    proof (rule map_idI)
      fix c assume c: "c \<in> set cs"
      have "p \<notin> set (addrs c)" using ModelPart.prems True c by (auto simp: addrs_simps)
      then show "map_members (\<lambda>a m. if a = p then G m else m) c = c"
        by (intro map_members_id) (auto simp: fun_eq_iff)
    qed
    with True show ?thesis by simp
  next
    case False
    have "map (modify p (\<lambda>n. ModelPart (self n) (G (members n)) (m_childItems n))) cs
            = map (map_members (\<lambda>a m. if a = p then G m else m)) cs"
      using ModelPart.IH distinct_child[OF ModelPart.prems] by (intro map_cong) auto
    with False show ?thesis by simp
  qed
qed

lemma applyProperties_members_idem:
  "applyProperties_members name v c False (applyProperties_members name v c False m)
     = applyProperties_members name v c False m"
  by (cases "actor m")
     (simp_all add: applyProperties_members_def applyProperties_ModelPart list_update_swap)

lemma rootItem_through:
  "rootItem (through (Some p) f L) = modify p f (rootItem L)"
  by (simp add: through_def)

lemma rootItem_applyPropertiesToPart:
  assumes "distinct (addrs (rootItem (partList w)))"
  shows "rootItem (partList (applyPropertiesToPart (Some p) name v c u w))
           = map_members (\<lambda>a m. if a = p then applyProperties_members name v c u m else m)
               (rootItem (partList w))"
proof -
  have "applyProperties name v c u
          = (\<lambda>n. ModelPart (self n) (applyProperties_members name v c u (members n)) (m_childItems n))"
    by (rule ext) (rule applyProperties_eq)
  then show ?thesis
    using modify_members[OF assms, of p "applyProperties_members name v c u"]
    by (simp add: partList_applyPropertiesToPart rootItem_through)
qed

lemma map_members_union:
  assumes "\<And>m. G (G m) = G m"
  shows "map_members (\<lambda>a m. if a \<in> A then G m else m)
           (map_members (\<lambda>a m. if a \<in> B then G m else m) t)
         = map_members (\<lambda>a m. if a \<in> A \<union> B then G m else m) t"
  unfolding map_members_comp
  by (rule map_members_cong) (auto simp: fun_eq_iff assms)

lemma rootItem_updateChildrenProperties:
  assumes "distinct (addrs (rootItem (partList w)))"
  shows "rootItem (partList (updateChildrenProperties n v c w))
           = map_members (\<lambda>a m. if a \<in> set (concat (map addrs (m_childItems n)))
                                  then applyProperties_members [] v c False m else m)
               (rootItem (partList w))"
  using assms
proof (induction n arbitrary: w)
  case (ModelPart a m cs)
  let ?G = "applyProperties_members [] v c False"
  let ?H = "\<lambda>A a m. if a \<in> A then ?G m else m"
  let ?step = "\<lambda>childItem w1. updateChildrenProperties childItem v c
                 (applyPropertiesToPart (Some (self childItem)) [] v c False w1)"
  have idem: "\<And>m. ?G (?G m) = ?G m" by (rule applyProperties_members_idem)
  have "distinct (addrs (rootItem (partList w))) \<Longrightarrow>
        rootItem (partList (fold ?step ds w))
          = map_members (?H (set (concat (map addrs ds)))) (rootItem (partList w))"
    if "set ds \<subseteq> set cs" for ds w
    using that
  proof (induction ds arbitrary: w)
    case Nil
    have "map_members (\<lambda>a m. m) (rootItem (partList w)) = rootItem (partList w)"
      by (rule map_members_id) (simp add: fun_eq_iff)
    then show ?case by simp
  next
    case (Cons d ds)
    let ?w1 = "applyPropertiesToPart (Some (self d)) [] v c False w"
    let ?w2 = "updateChildrenProperties d v c ?w1"
    have r1: "rootItem (partList ?w1) = map_members (?H {self d}) (rootItem (partList w))"
      using rootItem_applyPropertiesToPart[OF Cons.prems(1), of "self d" "[]" v c False] by simp
    then have d1: "distinct (addrs (rootItem (partList ?w1)))"
      using Cons.prems(1) by simp
    have din: "d \<in> set cs" using Cons.prems(2) by simp
    have "rootItem (partList ?w2)
            = map_members (?H (set (concat (map addrs (m_childItems d))))) (rootItem (partList ?w1))"
      by (rule ModelPart.IH[OF din d1])
    then have r2: "rootItem (partList ?w2) = map_members (?H (set (addrs d))) (rootItem (partList w))"
      unfolding r1 map_members_union[of ?G, OF idem]
      by (cases d) (simp add: addrs_simps Un_commute)
    then have d2: "distinct (addrs (rootItem (partList ?w2)))"
      using Cons.prems(1) by simp
    have "rootItem (partList (fold ?step ds ?w2))
            = map_members (?H (set (concat (map addrs ds)))) (rootItem (partList ?w2))"
      using Cons.IH[OF d2] Cons.prems(2) by simp
    then show ?case
      unfolding r2 map_members_union[of ?G, OF idem]
      by (simp add: Un_commute)
  qed
  from this[of cs w] ModelPart.prems show ?case by simp
qed

lemma applyProperties_members_explicit:
  "applyProperties_members name v c u m =
     m\<lparr>m_itemData :=
          ((if u then (m_itemData m)[0 := QVariant name] else m_itemData m)
             [1 := QVariant (if v then ''true'' else ''false'')])
             [2 := QVariant (QString_number (red c) @ '','' @ QString_number (green c)
                          @ '','' @ QString_number (blue c))],
        color := QColor (word_of_int (red c)) (word_of_int (green c)) (word_of_int (blue c)),
        isVisible := v,
        actor := map_option (\<lambda>act. act\<lparr>Visibility := v,
                    DiffuseColor := (real_of_int (red c) / 255, real_of_int (green c) / 255,
                                     real_of_int (blue c) / 255)\<rparr>) (actor m)\<rparr>"
  by (simp add: applyProperties_members_def applyProperties_ModelPart split del: if_split)

lemma carries_applied:
  "members x' = applyProperties_members name v c u m \<Longrightarrow> carries x' v c"
  by (simp add: carries_def visible_def getColourR_def getColourG_def getColourB_def
      applyProperties_members_explicit split del: if_split)

lemma label_applied_False:
  "members x' = applyProperties_members name v c False (members x) \<Longrightarrow> label x' = label x"
  by (simp add: label_def data_def applyProperties_members_explicit)

lemma label_applied_True:
  "members x' = applyProperties_members name v c True (members x) \<Longrightarrow> 0 < columnCount x
     \<Longrightarrow> label x' = QVariant name"
  by (simp add: label_def data_def applyProperties_members_explicit columnCount_def)

lemma below_not_self:
  assumes "distinct (addrs n)"
  shows "self n \<notin> set (concat (map addrs (m_childItems n)))"
  using assms by (cases n) (simp add: addrs_simps)

lemma below_member:
  assumes "x \<in> set (nodes n)" "x \<noteq> n"
  shows "self x \<in> set (concat (map addrs (m_childItems n)))"
proof -
  from assms obtain c where c: "c \<in> set (m_childItems n)" "x \<in> set (nodes c)"
    by (auto simp: nodes_cases[of x n])
  have "self x \<in> set (addrs c)" using c(2) by (auto simp: addrs_def)
  with c(1) show ?thesis by auto
qed

lemma rootItem_on_actionItemOptions_triggered:
  assumes d: "distinct (addrs (rootItem (partList w)))"
    and n: "n \<in> set (nodes (rootItem (partList w)))"
    and i: "isValid i" "internalPointer i = Some (self n)" "accepted dialog"
  shows "rootItem (partList (on_actionItemOptions_triggered i dialog w))
           = map_members
               (\<lambda>a m. if a \<in> set (concat (map addrs (m_childItems n)))
                      then applyProperties_members [] (getVisibility dialog) (getColor dialog) False m
                      else if a = self n
                      then applyProperties_members (getName dialog) (getVisibility dialog)
                             (getColor dialog) True m
                      else m)
               (rootItem (partList w))"
proof -
  let ?v = "getVisibility dialog" and ?c = "getColor dialog" and ?name = "getName dialog"
  let ?w1 = "applyPropertiesToPart (Some (self n)) ?name ?v ?c True w"
  have sel: "pointee (partList w) (internalPointer i) = Some n"
    using deref_distinct[OF d n] i(2) by (simp add: pointee_def)
  have eq: "on_actionItemOptions_triggered i dialog w
              = statusUpdateMessage ''Item and its children updated.'' 2000
                  (updateChildrenProperties n ?v ?c ?w1)"
    using i sel by (simp add: on_actionItemOptions_triggered_def Let_def)
  have r1: "rootItem (partList ?w1)
              = map_members (\<lambda>a m. if a = self n then applyProperties_members ?name ?v ?c True m else m)
                  (rootItem (partList w))"
    by (rule rootItem_applyPropertiesToPart[OF d])
  then have d1: "distinct (addrs (rootItem (partList ?w1)))" using d by simp
  have ns: "self n \<notin> set (concat (map addrs (m_childItems n)))"
    by (rule below_not_self[OF distinct_sub[OF n d]])
  show ?thesis
    unfolding eq partList_statusUpdateMessage rootItem_updateChildrenProperties[OF d1] r1
      map_members_comp
    by (rule map_members_cong) (use ns in \<open>auto simp: fun_eq_iff\<close>)
qed

lemma group_state:
  "partList example_group =
   \<lparr>rootItem =
      ModelPart 10
       \<lparr>m_itemData = [QVariant ''Part'', QVariant ''Visible?'', QVariant ''Colour''],
        m_parentItem = None, isVisible = False, color = QColor_invalid, reader = None, actor = None\<rparr>
       [example_model]\<rparr>"
  unfolding example_group_def example_model_def example_assembly_def
  by (simp add: on_actionNewGroup_triggered_def example_window_eq isValid_def createIndex_def
      through_def appendChild_def ModelPart_new_def Let_def)

lemma group_state_facts:
  "distinct (addrs (rootItem (partList example_group)))"
  "example_model \<in> set (nodes (rootItem (partList example_group)))"
  "map_option label (deref (rootItem (partList example_group)) 11) = Some (QVariant ''Model'')"
  by (simp_all add: group_state addrs_simps deref_def label_def data_def example_model_def
      example_assembly_def)

section \<open>The claims\<close>

subsection \<open>C1: loading a file that does not parse\<close>

text \<open>
  C1, the claim at a file that does not parse.  The reader's output is empty, yet the
  root has two rows after the load where it had one, and the one status message is
  the message of a successful load.
\<close>

theorem load_counterexample:
  "Output (InputConnection (the (getActor (createModelPartFromFile_worker (\<lambda>_. None) 12 101 ''dir/bad.stl'')))) = None \<and>
   ModelPartList_rowCount (partList example_window) QModelIndex_invalid = 1 \<and>
   ModelPartList_rowCount
     (partList (createModelPartFromFile (\<lambda>_. None) 12 101 102 QModelIndex_invalid ''dir/bad.stl''
        example_window)) QModelIndex_invalid = 2 \<and>
   statusbar (createModelPartFromFile (\<lambda>_. None) 12 101 102 QModelIndex_invalid ''dir/bad.stl''
        example_window) = [(''Loaded STL file: dir/bad.stl'', 5000)]"
  by (simp add: statusbar_createModelPartFromFile partList_createModelPartFromFile worker_actor
      example_window_eq ModelPartList_rowCount_def isValid_def QModelIndex_invalid_def
      ModelPartList_getItem_def ModelPartList_getRootItem_def pointee_def deref_def through_def
      childCount_def appendChild_def)

text \<open>
  C1, as the code has it.  \<open>createModelPartFromFile\<close> never looks at what the reader
  produced.  Whether or not the file parses, the new part, with an actor attached, is
  appended as the last child of the part the current index points to (the root when the
  index is invalid), which so gains one row; exactly one status message is emitted,
  \<^verbatim>\<open>Loaded STL file: <fileName>\<close>, and no message box is shown.
\<close>

theorem load_always_inserts:
  assumes "pointee (partList w)
             (if isValid i then internalPointer i else ModelPartList_getRootItem (partList w)) = Some P"
  shows "pointee (partList (createModelPartFromFile parse a act fl i fileName w))
             (if isValid i then internalPointer i else ModelPartList_getRootItem (partList w))
           = Some (appendChild P (createModelPartFromFile_worker parse a act fileName)) \<and>
         childCount (appendChild P (createModelPartFromFile_worker parse a act fileName))
           = childCount P + 1 \<and>
         getActor (createModelPartFromFile_worker parse a act fileName) \<noteq> None \<and>
         statusbar (createModelPartFromFile parse a act fl i fileName w)
           = statusbar w @ [(''Loaded STL file: '' @ fileName, 5000)] \<and>
         messageBoxes (createModelPartFromFile parse a act fl i fileName w) = messageBoxes w"
proof -
  let ?ptr = "if isValid i then internalPointer i else ModelPartList_getRootItem (partList w)"
  let ?new = "createModelPartFromFile_worker parse a act fileName"
  have "pointee (through ?ptr (\<lambda>p. appendChild p ?new) (partList w)) ?ptr = Some (appendChild P ?new)"
    using assms by (intro pointee_through) simp_all
  then show ?thesis
    by (simp add: partList_createModelPartFromFile statusbar_createModelPartFromFile
        childCount_appendChild worker_actor)
qed

theorem load_always_inserts_witness:
  "pointee (partList example_window)
     (ModelPartList_getRootItem (partList example_window))
     = Some (rootItem (partList example_window)) \<and>
   map_option childCount
     (pointee (partList (createModelPartFromFile (\<lambda>_. None) 12 101 102 QModelIndex_invalid ''dir/bad.stl''
        example_window)) (Some 10)) = Some 2 \<and>
   statusbar (createModelPartFromFile (\<lambda>_. None) 12 101 102 QModelIndex_invalid ''dir/bad.stl''
        example_window) = [(''Loaded STL file: dir/bad.stl'', 5000)]"
  using load_always_inserts[of "example_window" QModelIndex_invalid
      "rootItem (partList example_window)" "\<lambda>_. None" 12 101 102 "''dir/bad.stl''"]
  by (simp add: pointee_root isValid_def QModelIndex_invalid_def)
     (simp add: example_window_eq ModelPartList_getRootItem_def childCount_def)


subsection \<open>C2: what updateRender puts in the renderer\<close>




subsection \<open>C3: cloning a render handle\<close>

text \<open>
  C3.  The claim: \<open>getNewActor\<close> returns none when no geometry is attached, and an
  independent handle on the shared geometry when geometry is attached.  The code at the
  input of the second half: a part on which \<open>loadSTL\<close> has run has its actor, and
  \<open>getNewActor\<close> still returns null, because \<open>loadSTL\<close> keeps its reader in a local
  variable and the member \<open>reader\<close> that \<open>getNewActor\<close> tests stays null.
\<close>

theorem getNewActor_null_after_loadSTL:
  "getActor (loadSTL parse act (ModelPart_new a d p) f) \<noteq> None \<and>
   getNewActor b (loadSTL parse act (ModelPart_new a d p) f) = None \<and>
   getActor (createModelPartFromFile_worker parse a act f) \<noteq> None \<and>
   getNewActor b (createModelPartFromFile_worker parse a act f) = None"
  by (simp add: createModelPartFromFile_worker_def Let_def loadSTL_def setColour_def
      setVisible_def getActor_def getNewActor_def ModelPart_new_def)

subsection \<open>C4: the root cannot be deleted\<close>

lemma delete_Model_rejected:
  assumes "isValid i" "pointee (partList w) (internalPointer i) = Some n"
    and "toString (data n 0) = ''Model''"
  shows "on_actionDeleteFile_triggered i response w =
           QMessageBox ''Invalid Operation'' ''Cannot delete root item.'' w"
  using assms by (simp add: on_actionDeleteFile_triggered_def)



subsection \<open>C5: removeRows\<close>

lemma take_drop_step:
  "k + j < length cs \<Longrightarrow>
   take k (take k cs @ drop (k + j) cs) @ drop (Suc k) (take k cs @ drop (k + j) cs)
     = take k cs @ drop (k + Suc j) cs"
  by (simp add: min_def)

lemma pointee_fold_removeChild:
  assumes "pointee L (Some q) = Some P" "0 \<le> position"
    and "nat position + j \<le> length (m_childItems P)"
  shows "pointee (fold (\<lambda>_. through (Some q) (\<lambda>p. removeChild p position)) [0..<j] L) (Some q)
           = Some (ModelPart (self P) (members P)
                    (take (nat position) (m_childItems P) @ drop (nat position + j) (m_childItems P)))"
  using assms(3)
proof (induction j)
  case 0
  with assms(1) show ?case by simp
next
  case (Suc j)
  let ?Lj = "fold (\<lambda>_. through (Some q) (\<lambda>p. removeChild p position)) [0..<j] L"
  let ?Pj = "ModelPart (self P) (members P)
               (take (nat position) (m_childItems P) @ drop (nat position + j) (m_childItems P))"
  from Suc have Pj: "pointee ?Lj (Some q) = Some ?Pj" by simp
  have step: "pointee (through (Some q) (\<lambda>p. removeChild p position) ?Lj) (Some q)
                = Some (removeChild ?Pj position)"
    using Pj by (intro pointee_through) simp_all
  have len: "nat position < length (m_childItems ?Pj)"
    using Suc.prems by simp
  have "removeChild ?Pj position
          = ModelPart (self P) (members P)
              (take (nat position) (m_childItems P) @ drop (nat position + Suc j) (m_childItems P))"
    using assms(2) len Suc.prems take_drop_step[of "nat position" j "m_childItems P"]
    by (simp add: removeChild_def)
  with step show ?case by simp
qed

lemma removeRows_in_range:
  assumes "pointee L (ModelPartList_getItem L parentIndex) = Some P"
    and "0 \<le> position" "0 \<le> rows" "position + rows \<le> childCount P"
  shows "fst (ModelPartList_removeRows L position rows parentIndex) \<and>
         pointee (snd (ModelPartList_removeRows L position rows parentIndex))
             (ModelPartList_getItem L parentIndex)
           = Some (ModelPart (self P) (members P)
                    (take (nat position) (m_childItems P) @
                     drop (nat (position + rows)) (m_childItems P)))"
proof -
  have q: "ModelPartList_getItem L parentIndex = Some (self P)"
    using assms(1) by (cases "ModelPartList_getItem L parentIndex")
      (auto simp: pointee_def dest: deref_Some_D)
  have "nat position + nat rows \<le> length (m_childItems P)"
    using assms(2-4) by (simp add: childCount_def)
  from pointee_fold_removeChild[OF assms(1)[unfolded q] assms(2) this]
  show ?thesis
    using assms by (simp add: ModelPartList_removeRows_def q nat_add_distrib)
qed

lemma removeRows_out_of_range:
  assumes "pointee L (ModelPartList_getItem L parentIndex) = Some P"
    and "position < 0 \<or> position + rows > childCount P"
  shows "ModelPartList_removeRows L position rows parentIndex = (False, L)"
  using assms by (auto simp: ModelPartList_removeRows_def)

lemma removeRows_rowCount:
  assumes "pointee L (ModelPartList_getItem L parentIndex) = Some P"
    and "0 \<le> position" "0 \<le> rows" "position + rows \<le> childCount P"
  shows "map_option childCount
           (pointee (snd (ModelPartList_removeRows L position rows parentIndex))
              (ModelPartList_getItem L parentIndex))
         = Some (childCount P - rows)"
  using removeRows_in_range[OF assms] assms(2-4)
  by (simp add: childCount_def)


text \<open>
  C5.  For a count that is not negative the claim holds (\<open>removeRows_out_of_range\<close>,
  \<open>removeRows_in_range\<close>, \<open>removeRows_rowCount\<close>).  The code at a negative count: the range check tests
  \<^verbatim>\<open>position < 0\<close> and \<^verbatim>\<open>position + rows > childCount\<close> and nothing about
  \<^verbatim>\<open>rows\<close> itself, so on a root with one row \<^verbatim>\<open>removeRows(0, -1)\<close>, \<^verbatim>\<open>removeRows(1, -1)\<close>
  and \<^verbatim>\<open>removeRows(5, -4)\<close> all return true and remove nothing.
\<close>

theorem removeRows_negative_count:
  "ModelPartList_rowCount (partList example_window) QModelIndex_invalid = 1 \<and>
   ModelPartList_removeRows (partList example_window) 0 (- 1) QModelIndex_invalid
     = (True, partList example_window) \<and>
   ModelPartList_removeRows (partList example_window) 1 (- 1) QModelIndex_invalid
     = (True, partList example_window) \<and>
   ModelPartList_removeRows (partList example_window) 5 (- 4) QModelIndex_invalid
     = (True, partList example_window)"
  by (simp add: example_window_eq ModelPartList_removeRows_def ModelPartList_rowCount_def
      ModelPartList_getItem_def ModelPartList_getRootItem_def isValid_def QModelIndex_invalid_def
      pointee_def deref_def childCount_def)
subsection \<open>C6: propagating visibility and colour\<close>

text \<open>
  C6, the claim at a group.  The part \<^verbatim>\<open>"Model"\<close> (address 11) holds the group
  \<^verbatim>\<open>"Assembly"\<close>; its own visibility is false.  \<open>updateChildrenProperties\<close> run on it
  with visibility true leaves its visibility false: the function writes to the parts
  below the part it is given, not to that part.  The Item Options slot, which does
  write to the selected part, writes the dialog's name to its label as well:
  \<^verbatim>\<open>"Model"\<close> becomes \<^verbatim>\<open>"Chassis"\<close>.
\<close>

theorem propagate_counterexample:
  "map_option visible (deref (rootItem (partList example_group)) 11) = Some False \<and>
   map_option visible
     (deref (rootItem (partList (updateChildrenProperties example_model True (QColor 30 60 90) example_group))) 11)
     = Some False \<and>
   map_option label (deref (rootItem (partList example_group)) 11) = Some (QVariant ''Model'') \<and>
   map_option label
     (deref (rootItem (partList (on_actionItemOptions_triggered (createIndex 0 0 (Some 11)) example_dialog example_group))) 11)
     = Some (QVariant ''Chassis'')"
proof -
  have a: "map_option visible (deref (rootItem (partList example_group)) 11) = Some False"
    by (simp add: group_state deref_def visible_def example_model_def example_assembly_def)
  have b: "map_option visible
     (deref (rootItem (partList (updateChildrenProperties example_model True (QColor 30 60 90) example_group))) 11)
     = Some False"
    unfolding rootItem_updateChildrenProperties[OF group_state_facts(1)]
    by (simp add: group_state deref_def visible_def addrs_simps example_model_def
        example_assembly_def)
  have v: "isValid (createIndex 0 0 (Some 11))" by (simp add: isValid_createIndex)
  have p: "internalPointer (createIndex 0 0 (Some 11)) = Some (self example_model)"
    by (simp add: createIndex_def example_model_def)
  have acc: "accepted example_dialog" by (simp add: example_dialog_def)
  have c: "map_option label
     (deref (rootItem (partList (on_actionItemOptions_triggered (createIndex 0 0 (Some 11)) example_dialog example_group))) 11)
     = Some (QVariant ''Chassis'')"
    unfolding rootItem_on_actionItemOptions_triggered[OF group_state_facts(1,2) v p acc]
    by (simp add: group_state deref_def label_def data_def addrs_simps example_model_def
        example_assembly_def example_dialog_def applyProperties_members_explicit)
  from a b c group_state_facts(3) show ?thesis by blast
qed

text \<open>
  C6, as the code has it.  In a tree of live parts (no address twice), for a part \<open>n\<close>
  of the tree: \<open>updateChildrenProperties n v c\<close> sets visibility \<open>v\<close> and the colour
  bytes of \<open>c\<close> on every part below \<open>n\<close>, leaves every label of the tree unchanged,
  and leaves the members of \<open>n\<close> itself as they were.  Writing to \<open>n\<close> is the caller's
  job: the Item Options slot (valid index pointing to \<open>n\<close>, dialog accepted) runs
  \<open>applyPropertiesToPart\<close> on \<open>n\<close> with the dialog's name and then
  \<open>updateChildrenProperties\<close>; afterwards \<open>n\<close> and every part below it carry the dialog's
  visibility and colour, every label other than \<open>n\<close>'s is unchanged, and the label of
  \<open>n\<close>, when \<open>n\<close> has a column 0, is the dialog's name.
\<close>

theorem updateChildrenProperties_descendants:
  assumes d: "distinct (addrs (rootItem (partList w)))"
    and n: "n \<in> set (nodes (rootItem (partList w)))"
  shows "(\<forall>x \<in> set (nodes n). x \<noteq> n \<longrightarrow>
            (\<exists>x'. deref (rootItem (partList (updateChildrenProperties n v c w))) (self x) = Some x'
                  \<and> carries x' v c)) \<and>
         (\<forall>a. map_option label (deref (rootItem (partList (updateChildrenProperties n v c w))) a)
                = map_option label (deref (rootItem (partList w)) a)) \<and>
         map_option members (deref (rootItem (partList (updateChildrenProperties n v c w))) (self n))
           = Some (members n) \<and>
         (isValid i \<and> internalPointer i = Some (self n) \<and> accepted dialog \<longrightarrow>
            (\<forall>x \<in> set (nodes n).
               \<exists>x'. deref (rootItem (partList (on_actionItemOptions_triggered i dialog w))) (self x)
                       = Some x'
                     \<and> carries x' (getVisibility dialog) (getColor dialog)) \<and>
            (\<forall>a. a \<noteq> self n \<longrightarrow>
               map_option label (deref (rootItem (partList (on_actionItemOptions_triggered i dialog w))) a)
                 = map_option label (deref (rootItem (partList w)) a)) \<and>
            (0 < columnCount n \<longrightarrow>
               map_option label
                 (deref (rootItem (partList (on_actionItemOptions_triggered i dialog w))) (self n))
                 = Some (QVariant (getName dialog))))"
proof -
  let ?root = "rootItem (partList w)"
  define B where "B = set (concat (map addrs (m_childItems n)))"
  let ?B = B
  let ?h = "\<lambda>a m. if a \<in> ?B then applyProperties_members [] v c False m else m"
  have r': "rootItem (partList (updateChildrenProperties n v c w)) = map_members ?h ?root"
    unfolding B_def by (rule rootItem_updateChildrenProperties[OF d])
  have in_root: "x \<in> set (nodes ?root)" if "x \<in> set (nodes n)" for x
    using that nodes_trans[OF n] by auto
  have der: "deref ?root (self x) = Some x" if "x \<in> set (nodes n)" for x
    by (rule deref_distinct[OF d in_root[OF that]])
  have ns: "self n \<notin> ?B"
    unfolding B_def by (rule below_not_self[OF distinct_sub[OF n d]])
  have below: "self x \<in> ?B" if "x \<in> set (nodes n)" "x \<noteq> n" for x
    unfolding B_def by (rule below_member[OF that])
  have A: "\<exists>x'. deref (map_members ?h ?root) (self x) = Some x' \<and> carries x' v c"
    if "x \<in> set (nodes n)" "x \<noteq> n" for x
  proof -
    have "self x \<in> ?B" by (rule below[OF that])
    then have "members (map_members ?h x) = applyProperties_members [] v c False (members x)"
      by simp
    then have "carries (map_members ?h x) v c" by (rule carries_applied)
    then show ?thesis by (simp add: deref_map_members der[OF that(1)])
  qed
  have lab: "label (map_members ?h x) = label x" for x
    by (cases "self x \<in> ?B") (simp_all add: label_applied_False, simp add: label_def data_def)
  have B: "map_option label (deref (map_members ?h ?root) a) = map_option label (deref ?root a)" for a
    by (cases "deref ?root a") (simp_all add: deref_map_members lab)
  have C: "map_option members (deref (map_members ?h ?root) (self n)) = Some (members n)"
    using ns by (simp add: deref_map_members der[OF self_in_nodes])
  have D: "(\<forall>x \<in> set (nodes n).
               \<exists>x'. deref (rootItem (partList (on_actionItemOptions_triggered i dialog w))) (self x)
                       = Some x'
                     \<and> carries x' (getVisibility dialog) (getColor dialog)) \<and>
            (\<forall>a. a \<noteq> self n \<longrightarrow>
               map_option label (deref (rootItem (partList (on_actionItemOptions_triggered i dialog w))) a)
                 = map_option label (deref (rootItem (partList w)) a)) \<and>
            (0 < columnCount n \<longrightarrow>
               map_option label
                 (deref (rootItem (partList (on_actionItemOptions_triggered i dialog w))) (self n))
                 = Some (QVariant (getName dialog)))"
    if i: "isValid i" "internalPointer i = Some (self n)" "accepted dialog"
  proof -
    let ?v = "getVisibility dialog" and ?c = "getColor dialog" and ?name = "getName dialog"
    let ?g = "\<lambda>a m. if a \<in> ?B then applyProperties_members [] ?v ?c False m
                     else if a = self n then applyProperties_members ?name ?v ?c True m else m"
    have r'': "rootItem (partList (on_actionItemOptions_triggered i dialog w)) = map_members ?g ?root"
      unfolding B_def by (rule rootItem_on_actionItemOptions_triggered[OF d n i])
    have D1: "\<exists>x'. deref (map_members ?g ?root) (self x) = Some x' \<and> carries x' ?v ?c"
      if x: "x \<in> set (nodes n)" for x
    proof (cases "x = n")
      case True
      then have "members (map_members ?g x) = applyProperties_members ?name ?v ?c True (members x)"
        using ns by simp
      then have "carries (map_members ?g x) ?v ?c" by (rule carries_applied)
      then show ?thesis by (simp add: deref_map_members der[OF x])
    next
      case False
      have "self x \<in> ?B" by (rule below[OF x False])
      then have "members (map_members ?g x) = applyProperties_members [] ?v ?c False (members x)"
        by simp
      then have "carries (map_members ?g x) ?v ?c" by (rule carries_applied)
      then show ?thesis by (simp add: deref_map_members der[OF x])
    qed
    have lab2: "label (map_members ?g x) = label x" if "self x \<noteq> self n" for x
      using that
      by (cases "self x \<in> ?B") (simp_all add: label_applied_False, simp add: label_def data_def)
    have D2: "map_option label (deref (map_members ?g ?root) a) = map_option label (deref ?root a)"
      if "a \<noteq> self n" for a
    proof (cases "deref ?root a")
      case None
      then show ?thesis by (simp add: deref_map_members)
    next
      case (Some x)
      then have "self x \<noteq> self n" using that by (auto dest: deref_Some_D)
      with Some show ?thesis by (simp add: deref_map_members lab2)
    qed
    have D3: "map_option label (deref (map_members ?g ?root) (self n)) = Some (QVariant ?name)"
      if "0 < columnCount n"
    proof -
      have "members (map_members ?g n) = applyProperties_members ?name ?v ?c True (members n)"
        using ns by simp
      from label_applied_True[OF this that] show ?thesis
        by (simp add: deref_map_members der[OF self_in_nodes])
    qed
    from D1 D2 D3 show ?thesis unfolding r'' by blast
  qed
  from A B C D show ?thesis unfolding r' by blast
qed

theorem updateChildrenProperties_descendants_witness:
  "distinct (addrs (rootItem (partList example_group))) \<and>
   example_model \<in> set (nodes (rootItem (partList example_group))) \<and>
   map_option (\<lambda>x. carries x True (QColor 30 60 90))
     (deref (rootItem (partList (updateChildrenProperties example_model True (QColor 30 60 90) example_group))) 13)
     = Some True \<and>
   map_option members
     (deref (rootItem (partList (updateChildrenProperties example_model True (QColor 30 60 90) example_group))) 11)
     = Some (members example_model) \<and>
   map_option label
     (deref (rootItem (partList (updateChildrenProperties example_model True (QColor 30 60 90) example_group))) 13)
     = Some (QVariant ''Assembly'')"
proof -
  note th = updateChildrenProperties_descendants[OF group_state_facts(1,2),
      of True "QColor 30 60 90" "createIndex 0 0 (Some 11)" example_dialog]
  have m: "example_assembly \<in> set (nodes example_model)" "example_assembly \<noteq> example_model"
    "self example_assembly = 13" "self example_model = 11"
    by (simp_all add: example_model_def example_assembly_def)
  from th m(1,2) obtain x' where
    "deref (rootItem (partList (updateChildrenProperties example_model True (QColor 30 60 90) example_group))) (self example_assembly)
       = Some x'" "carries x' True (QColor 30 60 90)"
    by blast
  then have a: "map_option (\<lambda>x. carries x True (QColor 30 60 90))
     (deref (rootItem (partList (updateChildrenProperties example_model True (QColor 30 60 90) example_group))) 13)
     = Some True"
    by (simp only: m(3)) simp
  from th have "map_option members
     (deref (rootItem (partList (updateChildrenProperties example_model True (QColor 30 60 90) example_group))) (self example_model))
     = Some (members example_model)" by blast
  then have b: "map_option members
     (deref (rootItem (partList (updateChildrenProperties example_model True (QColor 30 60 90) example_group))) 11)
     = Some (members example_model)"
    by (simp only: m(4))
  from th have "map_option label
     (deref (rootItem (partList (updateChildrenProperties example_model True (QColor 30 60 90) example_group))) 13)
     = map_option label (deref (rootItem (partList example_group)) 13)" by blast
  then have c: "map_option label
     (deref (rootItem (partList (updateChildrenProperties example_model True (QColor 30 60 90) example_group))) 13)
     = Some (QVariant ''Assembly'')"
    by (simp add: group_state deref_def label_def data_def example_model_def example_assembly_def)
  from group_state_facts(1,2) a b c show ?thesis by blast
qed

subsection \<open>C7: actors leave the renderer before the rows leave the tree\<close>





subsection \<open>C8: a part is at its own position under its parent\<close>

text \<open>
  C8.  In every tree the member functions build (\<open>tree_state\<close>: from the root, by
  \<open>appendChild\<close> of a part that is not in the tree yet, by \<open>removeChild\<close>, and by the
  property writes), every part \<open>n\<close> other than the root has a parent pointer, the pointer
  leads to a part of the tree, and the child of that part at row \<open>row n\<close> is \<open>n\<close> itself.
\<close>

theorem position_invariant:
  assumes "tree_state t" "n \<in> set (nodes t)" "n \<noteq> t"
  shows "position_ok t n"
  using assms tree_state_well_formed well_formed_position_ok by blast


theorem position_invariant_witness:
  "tree_state (rootItem (partList example_window)) \<and>
   ModelPart_new 11 [QVariant ''Model'', QVariant ''true'', QVariant ''255,255,255''] (Some 10)
     \<in> set (nodes (rootItem (partList example_window))) \<and>
   ModelPart_new 11 [QVariant ''Model'', QVariant ''true'', QVariant ''255,255,255''] (Some 10)
     \<noteq> rootItem (partList example_window) \<and>
   position_ok (rootItem (partList example_window))
     (ModelPart_new 11 [QVariant ''Model'', QVariant ''true'', QVariant ''255,255,255''] (Some 10))"
proof -
  let ?root = "ModelPart_new 10 [QVariant ''Part'', QVariant ''Visible?'', QVariant ''Colour''] None"
  let ?item = "ModelPart_new 11 [QVariant ''Model'', QVariant ''true'', QVariant ''255,255,255''] None"
  have eq: "rootItem (partList example_window)
              = modify 10 (\<lambda>this. appendChild this ?item) ?root"
    by (simp add: example_window_eq ModelPart_new_def appendChild_def)
  have "tree_state (modify 10 (\<lambda>this. appendChild this ?item) ?root)"
    by (intro tree_state.append tree_state.root well_formed_root)
       (simp add: ModelPart_new_def addrs_simps)
  then have ts: "tree_state (rootItem (partList example_window))"
    by (simp only: eq)
  have mem: "ModelPart_new 11 [QVariant ''Model'', QVariant ''true'', QVariant ''255,255,255''] (Some 10)
     \<in> set (nodes (rootItem (partList example_window)))"
    by (simp add: example_window_eq ModelPart_new_def)
  have neq: "ModelPart_new 11 [QVariant ''Model'', QVariant ''true'', QVariant ''255,255,255''] (Some 10)
     \<noteq> rootItem (partList example_window)"
    by (simp add: example_window_eq ModelPart_new_def)
  from position_invariant[OF ts mem neq] ts mem neq show ?thesis by blast
qed

subsection \<open>C9: the index returned by appendChild\<close>





subsection \<open>C10: a new part is not visible\<close>

text \<open>
  C10.  Every part the constructor returns reports \<open>visible\<close> false, whatever its data
  columns hold.  In particular, after the New Group action has run on a parent that is
  in the tree, the parent's last child is the new group, whose visibility column holds
  \<^verbatim>\<open>"true"\<close> and whose \<open>visible\<close> is false; \<open>setVisible\<close> is what turns it on.
\<close>

theorem new_part_not_visible:
  assumes "pointee (partList w)
             (if isValid i then internalPointer i else ModelPartList_getRootItem (partList w)) = Some P"
  shows "visible (ModelPart_new a d q) = False \<and>
         (\<exists>g. pointee (partList (on_actionNewGroup_triggered i groupName a w))
                 (if isValid i then internalPointer i else ModelPartList_getRootItem (partList w))
               = Some (ModelPart (self P) (members P) (m_childItems P @ [g]))
              \<and> self g = a \<and> data g 1 = QVariant ''true'' \<and> visible g = False
              \<and> visible (setVisible g True) = True)"
proof -
  let ?ptr = "if isValid i then internalPointer i else ModelPartList_getRootItem (partList w)"
  let ?new = "ModelPart_new a [QVariant groupName, QVariant ''true'', QVariant ''255,255,255''] None"
  have "pointee (through ?ptr (\<lambda>p. appendChild p ?new) (partList w)) ?ptr = Some (appendChild P ?new)"
    using assms by (intro pointee_through) simp_all
  then show ?thesis
    by (simp add: on_actionNewGroup_triggered_def Let_def appendChild_def visible_def
        ModelPart_new_def data_def setVisible_def)
qed

theorem new_part_not_visible_witness:
  "pointee (partList example_window) (ModelPartList_getRootItem (partList example_window))
     = Some (rootItem (partList example_window)) \<and>
   visible (ModelPart_new 15 [QVariant ''Assembly'', QVariant ''true'', QVariant ''255,255,255''] None)
     = False \<and>
   map_option (\<lambda>P. map visible (m_childItems P))
     (pointee (partList (on_actionNewGroup_triggered QModelIndex_invalid ''Assembly'' 15 example_window))
        (Some 10)) = Some [False, False]"
proof -
  have h: "pointee (partList example_window)
             (if isValid QModelIndex_invalid then internalPointer QModelIndex_invalid
              else ModelPartList_getRootItem (partList example_window))
           = Some (rootItem (partList example_window))"
    by (simp add: pointee_root)
  have r: "ModelPartList_getRootItem (partList example_window) = Some 10"
    by (simp add: example_window_eq ModelPartList_getRootItem_def)
  from new_part_not_visible[OF h, of 15
      "[QVariant ''Assembly'', QVariant ''true'', QVariant ''255,255,255'']" None "''Assembly''"]
  obtain g where
    v: "visible (ModelPart_new 15 [QVariant ''Assembly'', QVariant ''true'', QVariant ''255,255,255'']
          None) = False"
    and p: "pointee (partList (on_actionNewGroup_triggered QModelIndex_invalid ''Assembly'' 15
                      example_window)) (Some 10)
              = Some (ModelPart (self (rootItem (partList example_window)))
                       (members (rootItem (partList example_window)))
                       (m_childItems (rootItem (partList example_window)) @ [g]))"
    and g: "visible g = False"
    by (auto simp: r)
  have "map visible (m_childItems (rootItem (partList example_window)) @ [g]) = [False, False]"
    using g by (simp add: example_window_eq visible_def)
  with p have "map_option (\<lambda>P. map visible (m_childItems P))
     (pointee (partList (on_actionNewGroup_triggered QModelIndex_invalid ''Assembly'' 15 example_window))
        (Some 10)) = Some [False, False]"
    by simp
  with v show ?thesis by (simp add: pointee_root)
qed

end
